theory Spec2Isabelle
  imports Main "HOL-Library.AList"
begin

section \<open>JavaScript values\<close>

text \<open>
  The library is generic TypeScript; at run time every value it stores, looks up or
  serializes is a JavaScript value, and the code branches on truthiness (\<open>!data\<close>,
  \<open>a || b\<close>) and on \<open>isDefined\<close>/\<open>isUndef\<close> from \<open>utils.ts\<close>.

  \<open>sdata\<close> is \<open>SerializedData\<close> (what may travel over the wire), \<open>jsval\<close> is an
  arbitrary application value (\<open>SerializableData\<close>, and the \<open>T\<close> of \<open>AddressMap<T>\<close>).
  Numbers are restricted to integers (no NaN, no fractions); a transferable object
  (ArrayBuffer, MessagePort, ...) and a function are identified by a tag.
\<close>

datatype sdata =
    SUndefined
  | SNull
  | SBool bool
  | SNum int
  | SBigInt int
  | SStr string
  | STransferable nat
  | SArray "sdata list"
  | SObject "(string \<times> sdata) list"

text \<open>The fields that \<open>rpcSerialize\<close> reads off an \<open>Error\<close>; an absent field reads as
  \<open>undefined\<close>.\<close>

record error_obj =
  name :: sdata
  message :: sdata
  stack :: sdata
  columnNumber :: sdata
  lineNumber :: sdata
  fileName :: sdata

text \<open>
  \<open>Hooked v h\<close> is the value \<open>v\<close> carrying the property \<open>[toRpcSerialized] = h\<close>; the hook
  is called with the value itself and the transfer list, so it is modelled as a function
  of the transfer list alone.
\<close>

datatype 'f jsval =
    Undefined
  | Null
  | Bool bool
  | Num int
  | BigInt int
  | Str string
  | Symbol string
  | Function 'f
  | Transferable nat
  | Error error_obj
  | Array "'f jsval list"
  | Object "(string \<times> 'f jsval) list"
  | Hooked "'f jsval" "nat list \<Rightarrow> sdata \<times> nat list"

fun truthy :: "'f jsval \<Rightarrow> bool" where
  "truthy Undefined = False"
| "truthy Null = False"
| "truthy (Bool b) = b"
| "truthy (Num n) = (n \<noteq> 0)"
| "truthy (BigInt n) = (n \<noteq> 0)"
| "truthy (Str s) = (s \<noteq> [])"
| "truthy (Hooked v h) = truthy v"
| "truthy _ = True"

text \<open>\<open>utils.ts\<close>: \<open>isDefined(val) = typeof val !== 'undefined' && val !== undefined && val !== null\<close>.\<close>

fun isDefined :: "'f jsval \<Rightarrow> bool" where
  "isDefined Undefined = False"
| "isDefined Null = False"
| "isDefined _ = True"

definition isUndef :: "'f jsval \<Rightarrow> bool" where
  "isUndef val = (\<not> isDefined val)"

section \<open>AddressMap (addrmap.ts)\<close>

text \<open>
  \<open>AddressMapFlat<T>\<close> is an object with string keys (sub-tables), the symbol key
  \<open>WildcardEntryKey\<close> (a sub-table) and the symbol key \<open>DefaultEntryKey\<close> (a value).
  The string keys are kept as an association list of the table's own keys; reading an
  absent \<open>DefaultEntryKey\<close> gives \<open>undefined\<close>.

  The tables of the source are plain objects (\<open>{}\<close>), so \<open>table[key]\<close> also finds what
  \<open>Object.prototype\<close> provides under that name: for \<open>__proto__\<close> the prototype itself,
  for the other names a built-in function. With such a key \<open>put\<close> walks into the
  inherited object and writes there (under \<open>["__proto__"]\<close> into \<open>Object.prototype\<close>,
  from which every table then inherits the entry; under \<open>["constructor","name"]\<close> it ends
  on the string \<open>"Object"\<close>, on which nothing can be stored), and \<open>get\<close> follows the
  inherited member as if it were a sub-table. What is found there depends on the
  engine's built-in objects and is not part of the model. The model gives \<open>put\<close> and \<open>get\<close> for the other keys, the plain
  ones, in a program that has stored nothing under a key that is not plain, so that
  \<open>Object.prototype\<close> and the built-in objects carry no entry of an address map.
  \<open>plain_address\<close> and \<open>plain_pattern\<close> say that every literal segment is plain; the
  general properties of \<open>put\<close> and \<open>get\<close> below are stated for such addresses and
  patterns only.
\<close>

definition Object_prototype_names :: "string list" where
  "Object_prototype_names =
     [''__proto__'', ''constructor'', ''hasOwnProperty'', ''isPrototypeOf'',
      ''propertyIsEnumerable'', ''toLocaleString'', ''toString'', ''valueOf'',
      ''__defineGetter__'', ''__defineSetter__'', ''__lookupGetter__'', ''__lookupSetter__'']"

definition plain_key :: "string \<Rightarrow> bool" where
  "plain_key s = (s \<notin> set Object_prototype_names)"

definition plain_address :: "string list \<Rightarrow> bool" where
  "plain_address addr = list_all plain_key addr"

definition plain_pattern :: "string option list \<Rightarrow> bool" where
  "plain_pattern addr = list_all (\<lambda>part. case part of None \<Rightarrow> True | Some s \<Rightarrow> plain_key s) addr"

datatype 'f AddressMapFlat =
  Flat (entries: "(string \<times> 'f AddressMapFlat) list")
       (WildcardEntry: "'f AddressMapFlat option")
       (DefaultEntry: "'f jsval")

definition empty_table :: "'f AddressMapFlat" where
  "empty_table = Flat [] None Undefined"

text \<open>
  A segment of a \<open>WildcardMultistringAddress\<close> is \<open>string | undefined | null\<close>:
  \<open>None\<close> stands for \<open>undefined\<close> and \<open>null\<close>. \<open>put\<close> computes
  \<open>key = part || WildcardEntryKey\<close>, so the empty string selects the wildcard too.
\<close>

fun is_wildcard :: "string option \<Rightarrow> bool" where
  "is_wildcard None = True"
| "is_wildcard (Some s) = (s = [])"

text \<open>
  \<open>AddressMap.put\<close>: walk down from \<open>this.table\<close>, creating \<open>{}\<close> where a key is
  missing, then set or delete \<open>DefaultEntryKey\<close> of the table reached. The in-place
  update of the nested objects is returned as the new table. \<open>last_table[key]\<close> is
  the table's own entry (\<open>map_of es\<close>), which is what the source reads for a plain key.
\<close>

fun AddressMap_put :: "string option list \<Rightarrow> 'f jsval \<Rightarrow> 'f AddressMapFlat \<Rightarrow> 'f AddressMapFlat" where
  "AddressMap_put [] val (Flat es w d) = Flat es w (if isUndef val then Undefined else val)"
| "AddressMap_put (part # addr) val (Flat es w d) =
     (if is_wildcard part
      then Flat es (Some (AddressMap_put addr val (case w of None \<Rightarrow> empty_table | Some t \<Rightarrow> t))) d
      else Flat (AList.update (the part)
                   (AddressMap_put addr val (case map_of es (the part) of None \<Rightarrow> empty_table | Some t \<Rightarrow> t))
                   es) w d)"

lemma size_entry_less:
  "map_of es k = Some t \<Longrightarrow> size t < Suc (size_list (size_prod (\<lambda>_. 0) size) es)"
  by (induction es) (auto split: if_splits)

text \<open>
  \<open>getFromAddrMapFlat(map, addr, wc_values)\<close>. The source mutates \<open>addr\<close>
  (\<open>shift\<close>, \<open>unshift\<close>) and \<open>wc_values\<close> (\<open>push\<close>); the model returns both next to
  the result. \<open>addr.shift()\<close> on an empty array returns \<open>undefined\<close> and changes
  nothing; \<open>!part\<close> also holds for the empty string, which has then been removed.
  \<open>map[part]\<close> is the table's own entry, which is what the source reads for a plain
  key; \<open>map[WildcardEntryKey]\<close> and \<open>map[DefaultEntryKey]\<close> are the table's own as long
  as \<open>Object.prototype\<close> carries no entry of an address map.
\<close>

function getFromAddrMapFlat ::
  "'f AddressMapFlat \<Rightarrow> string list \<Rightarrow> string list option
     \<Rightarrow> 'f jsval \<times> string list \<times> string list option" where
  "getFromAddrMapFlat m [] wc_values = (DefaultEntry m, [], wc_values)"
| "getFromAddrMapFlat m (part # addr) wc_values =
     (if part = [] then (DefaultEntry m, addr, wc_values)
      else
        let r1 = (case map_of (entries m) part of
                    None \<Rightarrow> (Undefined, addr, wc_values)
                  | Some sub \<Rightarrow> getFromAddrMapFlat sub addr wc_values);
            r2 = (if \<not> truthy (fst r1) \<and> WildcardEntry m \<noteq> None
                  then getFromAddrMapFlat (the (WildcardEntry m)) (fst (snd r1))
                         (map_option (\<lambda>w. w @ [part]) (snd (snd r1)))
                  else r1)
        in (fst r2, part # fst (snd r2), snd (snd r2)))"
  by pat_completeness auto
termination
proof (relation "measure (\<lambda>(m, addr, wc_values). size m)")
  show "wf (measure (\<lambda>(m, addr, wc_values). size m))" by simp
next
  fix m :: "'f AddressMapFlat" and part addr wc_values x2
  assume "map_of (entries m) part = Some x2"
  then show "((x2, addr, wc_values), (m, part # addr, wc_values))
               \<in> measure (\<lambda>(m, addr, wc_values). size m)"
    using size_entry_less [of "entries m" part x2] by (cases m) simp
next
  fix m :: "'f AddressMapFlat" and part addr wc_values and x :: "'f jsval \<times> string list \<times> string list option"
  assume "\<not> truthy (fst x) \<and> WildcardEntry m \<noteq> None"
  then show "((the (WildcardEntry m), fst (snd x), map_option (\<lambda>w. w @ [part]) (snd (snd x))),
              (m, part # addr, wc_values)) \<in> measure (\<lambda>(m, addr, wc_values). size m)"
    by (cases m) auto
qed

text \<open>
  \<open>AddressMap.get\<close>: \<open>getFromAddrMapFlat(this.table, addr, wc_values) || this.table[DefaultEntryKey]\<close>,
  for an address with plain segments; the fallback is the root's own default value.
\<close>

definition AddressMap_get ::
  "'f AddressMapFlat \<Rightarrow> string list \<Rightarrow> string list option
     \<Rightarrow> 'f jsval \<times> string list \<times> string list option" where
  "AddressMap_get table addr wc_values =
     (let r = getFromAddrMapFlat table addr wc_values
      in (if truthy (fst r) then fst r else DefaultEntry table, snd r))"

text \<open>
  Modelled from the spec: \<open>AddressMap.clear\<close>, which \<open>RpcHandlerRegistry.clear\<close> calls and
  which is not part of the \<open>addrmap.ts\<close> at hand. The spec says that closing a channel
  "clears all registered handlers on the internal registry": the table becomes \<open>{}\<close>.
\<close>

definition AddressMap_clear :: "'f AddressMapFlat \<Rightarrow> 'f AddressMapFlat" where
  "AddressMap_clear table = empty_table"

section \<open>Access controllers (accesscontrol.ts)\<close>

text \<open>
  \<open>AccessPolicy = { ALLOW: true, DENY: false }\<close>, \<open>OptAccessPolicy.NONE = null\<close>; a
  controller may also answer \<open>undefined\<close>.
\<close>

abbreviation ALLOW :: "'f jsval" where "ALLOW \<equiv> Bool True"
abbreviation DENY :: "'f jsval" where "DENY \<equiv> Bool False"
abbreviation NONE :: "'f jsval" where "NONE \<equiv> Null"

text \<open>
  The functions stored in a handler registry. \<open>CloseHandler\<close> is the arrow function
  \<open>() => this.close(false)\<close> that the channel's constructor registers,
  \<open>ReturnHandler c k\<close> the resolver that \<open>call\<close> registers on channel \<open>c\<close> for
  its pending promise \<open>k\<close>, \<open>StopgenHandler addr\<close> the \<open>setDone\<close> of \<open>receive\<close> for
  the stream replying to \<open>addr\<close>, \<open>UserHandler n\<close> an application function, and
  \<open>Remapped f g\<close> the function \<open>f\<close> with \<open>f[RpcRemappedFunction] = g\<close>.
\<close>

datatype handler =
    CloseHandler
  | ReturnHandler nat nat
  | StopgenHandler "string list"
  | UserHandler nat
  | Remapped handler handler

text \<open>
  \<open>CanCallOpts\<close>: the arguments, the captured wildcards and the function found. The
  \<open>channel\<close> field is left out: a controller is a function of the address and of these
  three, and of a state \<open>'s\<close> of its own that it may change (a call log, a
  permission set).
\<close>

record CanCallOpts =
  opts_args :: "sdata list"
  opts_wc :: "string list"
  opts_func :: "handler jsval"

type_synonym 's AccessController =
  "string list \<Rightarrow> CanCallOpts \<Rightarrow> 's \<Rightarrow> unit jsval \<times> 's"

definition AllowAccessController_can :: "'s AccessController" where
  "AllowAccessController_can addr opts s = (ALLOW, s)"

definition DenyAccessController_can :: "'s AccessController" where
  "DenyAccessController_can addr opts s = (DENY, s)"

text \<open>
  \<open>ChainedAccessController.can\<close>:
  \<^verbatim>\<open>let val; this.access_chain.some((ctrl) => isDefined((val = ctrl.can(addr, opts))))\<close>
  \<^verbatim>\<open>return isDefined(val) ? val : this.default_ap\<close>
  \<open>some_can\<close> is the \<open>Array.some\<close> loop, carrying \<open>val\<close>.
\<close>

fun some_can ::
  "'s AccessController list \<Rightarrow> string list \<Rightarrow> CanCallOpts \<Rightarrow> unit jsval \<Rightarrow> 's
     \<Rightarrow> unit jsval \<times> 's" where
  "some_can [] addr opts val s = (val, s)"
| "some_can (ctrl # access_chain) addr opts val s =
     (case ctrl addr opts s of (val', s') \<Rightarrow>
        if isDefined val' then (val', s') else some_can access_chain addr opts val' s')"

definition ChainedAccessController_can ::
  "'s AccessController list \<Rightarrow> unit jsval \<Rightarrow> 's AccessController" where
  "ChainedAccessController_can access_chain default_ap addr opts s =
     (case some_can access_chain addr opts Undefined s of (val, s') \<Rightarrow>
        (if isDefined val then val else default_ap, s'))"

text \<open>\<open>LegacyAccessController.can(to) = this.map.get(to)\<close>, over an \<open>AddressMap<AccessPolicy>\<close>.\<close>

definition LegacyAccessController_can :: "unit AddressMapFlat \<Rightarrow> 's AccessController" where
  "LegacyAccessController_can table to opts s = (fst (AddressMap_get table to None), s)"

section \<open>Serializer (serializer.ts)\<close>

text \<open>
  A \<open>new Error\<close> of the given class and message. The stack is whatever the engine
  records; the positional fields are absent (as in V8, and as the tests expect).
\<close>

definition new_error :: "string \<Rightarrow> string \<Rightarrow> 'f jsval" where
  "new_error nm msg = Error \<lparr> name = SStr nm, message = SStr msg,
     stack = SStr (nm @ '': '' @ msg @ ''    at <anonymous>''),
     columnNumber = SUndefined, lineNumber = SUndefined, fileName = SUndefined \<rparr>"

definition redacted :: sdata where
  "redacted = SStr ''Stack trace redacted for security reasons''"

text \<open>
  \<open>rpcSerialize(data, xfer)\<close>: the result, or the \<open>TypeError\<close> thrown, next to the
  transfer list as the call leaves it. \<open>serialize_all\<close> is \<open>data.map(...)\<close> and
  \<open>serialize_keys\<close> the \<open>Object.keys(data).forEach(...)\<close> loop; both stop at the first
  throw.
\<close>

fun rpcSerialize :: "'f jsval \<Rightarrow> nat list \<Rightarrow> ('f jsval + sdata) \<times> nat list"
and serialize_all :: "'f jsval list \<Rightarrow> nat list \<Rightarrow> ('f jsval + sdata list) \<times> nat list"
and serialize_keys ::
  "(string \<times> 'f jsval) list \<Rightarrow> nat list \<Rightarrow> ('f jsval + (string \<times> sdata) list) \<times> nat list"
where
  "rpcSerialize (Hooked v hook) xfer =
     (if truthy v then (case hook xfer of (r, xfer') \<Rightarrow> (Inr r, xfer')) else rpcSerialize v xfer)"
| "rpcSerialize Undefined xfer = (Inr SUndefined, xfer)"
| "rpcSerialize (BigInt n) xfer = (Inr (SBigInt n), xfer)"
| "rpcSerialize (Bool b) xfer = (Inr (SBool b), xfer)"
| "rpcSerialize (Num n) xfer = (Inr (SNum n), xfer)"
| "rpcSerialize (Str s) xfer = (Inr (SStr s), xfer)"
| "rpcSerialize (Symbol s) xfer = (Inl (new_error ''TypeError'' ''Symbols cannot be serialized''), xfer)"
| "rpcSerialize (Function f) xfer = (Inl (new_error ''TypeError'' ''Functions cannot be serialized''), xfer)"
| "rpcSerialize Null xfer = (Inr SNull, xfer)"
| "rpcSerialize (Transferable t) xfer = (Inr (STransferable t), xfer @ [t])"
| "rpcSerialize (Error e) xfer =
     (Inr (SObject [(''name'', name e), (''message'', message e), (''stack'', redacted),
                    (''columnNumber'', columnNumber e), (''lineNumber'', lineNumber e),
                    (''fileName'', fileName e)]), xfer)"
| "rpcSerialize (Array es) xfer =
     (case serialize_all es xfer of
        (Inl err, xfer') \<Rightarrow> (Inl err, xfer')
      | (Inr ds, xfer') \<Rightarrow> (Inr (SArray ds), xfer'))"
| "rpcSerialize (Object kvs) xfer =
     (case serialize_keys kvs xfer of
        (Inl err, xfer') \<Rightarrow> (Inl err, xfer')
      | (Inr robj, xfer') \<Rightarrow> (Inr (SObject robj), xfer'))"
| "serialize_all [] xfer = (Inr [], xfer)"
| "serialize_all (e # es) xfer =
     (case rpcSerialize e xfer of
        (Inl err, xfer') \<Rightarrow> (Inl err, xfer')
      | (Inr d, xfer') \<Rightarrow>
          (case serialize_all es xfer' of
             (Inl err, xfer'') \<Rightarrow> (Inl err, xfer'')
           | (Inr ds, xfer'') \<Rightarrow> (Inr (d # ds), xfer'')))"
| "serialize_keys [] xfer = (Inr [], xfer)"
| "serialize_keys ((k, v) # kvs) xfer =
     (case rpcSerialize v xfer of
        (Inl err, xfer') \<Rightarrow> (Inl err, xfer')
      | (Inr d, xfer') \<Rightarrow>
          (case serialize_keys kvs xfer' of
             (Inl err, xfer'') \<Rightarrow> (Inl err, xfer'')
           | (Inr robj, xfer'') \<Rightarrow> (Inr ((k, d) # robj), xfer'')))"

section \<open>Handler registry (registry.ts)\<close>

text \<open>
  \<open>RpcHandlerRegistry extends ChainedAccessController\<close>: the inherited \<open>access_chain\<close>
  and \<open>default_ap\<close>, then \<open>map\<close> (here \<open>map_reg\<close>) and \<open>return_seq_id\<close>. The
  constructor calls \<open>super(undefined)\<close>, so the default parameter gives
  \<open>default_ap = OptAccessPolicy.NONE\<close>.
\<close>

record 's RpcHandlerRegistry =
  access_chain :: "'s AccessController list"
  default_ap :: "unit jsval"
  map_reg :: "handler AddressMapFlat"
  return_seq_id :: nat

definition new_RpcHandlerRegistry :: "'s RpcHandlerRegistry" where
  "new_RpcHandlerRegistry =
     \<lparr> access_chain = [], default_ap = NONE, map_reg = empty_table, return_seq_id = 0 \<rparr>"

text \<open>\<open>while (func[RpcRemappedFunction]) { func = func[RpcRemappedFunction] }\<close>\<close>

fun remapped :: "handler \<Rightarrow> handler" where
  "remapped (Remapped f g) = remapped g"
| "remapped f = f"

definition register ::
  "'s RpcHandlerRegistry \<Rightarrow> string option list \<Rightarrow> handler \<Rightarrow> 's RpcHandlerRegistry" where
  "register r address func =
     r\<lparr>map_reg := AddressMap_put address (Function (remapped func)) (map_reg r)\<rparr>"

definition unregister :: "'s RpcHandlerRegistry \<Rightarrow> string option list \<Rightarrow> 's RpcHandlerRegistry" where
  "unregister r address = r\<lparr>map_reg := AddressMap_put address Undefined (map_reg r)\<rparr>"

definition clear :: "'s RpcHandlerRegistry \<Rightarrow> 's RpcHandlerRegistry" where
  "clear r = r\<lparr>map_reg := AddressMap_clear (map_reg r)\<rparr>"

text \<open>
  \<open>return_seq_id\<close> is a JavaScript number. Counting up from 0 it is exact up to
  \<open>2^53\<close>; there \<open>x++\<close> stores \<open>2^53 + 1\<close> rounded to the nearest double, which is
  \<open>2^53\<close> again. The template literal prints an integer below \<open>10^21\<close> in decimal.
\<close>

definition js_increment :: "nat \<Rightarrow> nat" where
  "js_increment n = (if n < 2 ^ 53 then n + 1 else n)"

definition digit :: "nat \<Rightarrow> char" where
  "digit d = ''0123456789'' ! d"

function string_of_nat :: "nat \<Rightarrow> string" where
  "string_of_nat n = (if n < 10 then [digit n] else string_of_nat (n div 10) @ [digit (n mod 10)])"
  by pat_completeness auto
termination
  by (relation "measure (\<lambda>n. n)") auto

definition seq_addr :: "nat \<Rightarrow> string list" where
  "seq_addr n = [''_'', ''ret'', ''id'' @ string_of_nat n]"

definition nextSeqAddr :: "'s RpcHandlerRegistry \<Rightarrow> string list \<times> 's RpcHandlerRegistry" where
  "nextSeqAddr r = (seq_addr (return_seq_id r), r\<lparr>return_seq_id := js_increment (return_seq_id r)\<rparr>)"

section \<open>Channel (registry.ts)\<close>

datatype return_type = promise | generator

record RpcMessage =
  to :: "string list"
  args :: "sdata list"
  return_addr :: "string list option"
  return_type :: "return_type option"

datatype RpcState = INACTIVE | ACTIVE | CLOSED

text \<open>\<open>RpcChannelOpts\<close>; an absent number is 0, both are falsy.\<close>

record RpcChannelOpts =
  timeout :: nat
  keep_alive_interval :: nat
  await_first_msg :: bool

text \<open>
  The getter \<open>opts\<close> gives \<open>keep_alive_interval = this._opts.keep_alive_interval || timeout / 2\<close>;
  the code only tests it for truthiness.
\<close>

definition keep_alive_on :: "RpcChannelOpts \<Rightarrow> bool" where
  "keep_alive_on os = (keep_alive_interval os \<noteq> 0 \<or> timeout os \<noteq> 0)"

text \<open>
  What calling an application function gives: a plain value, a \<open>Promise\<close>, an async
  generator, or a thrown value. A promise or generator is consumed in later events, of
  which \<open>receive\<close> itself only does the synchronous part.
\<close>

datatype rpc_data = Plain "unit jsval" | APromise | AGenerator

datatype rpc_result = Returns rpc_data | Throws "unit jsval"

text \<open>How the promise of a \<open>call\<close> settles.\<close>

datatype rejection =
    InvalidChannelError
  | ForwardedError sdata
  | RemoteError sdata
  | ChannelClosed
  | SendFailed "unit jsval"

datatype outcome = Resolved sdata | Rejected rejection

text \<open>
  The channel object. \<open>sent\<close> lists the calls of the transport hook \<open>c_send\<close>,
  oldest first. The event emitter is represented by its listeners: \<open>resetTimeout\<close> on
  \<open>rawmessage\<close> (always there), \<open>start_waiters\<close> counts the \<open>start()\<close> calls suspended
  on their first message, \<open>close_listeners\<close> holds the \<open>onChannelClose\<close> of each
  pending \<open>call\<close> (its promise and return address). A timer is armed or not.
  \<open>settled\<close> records how the promises of \<open>call\<close> settled (keyed by the owning channel
  and the sequence number), \<open>user\<close> gives the behaviour of the application functions
  and \<open>invoked\<close> logs their calls. \<open>ac_state\<close> is the state of the access controllers.
  A registry shared between several channels is not modelled: each channel has its own.
\<close>

record 's RpcChannel =
  chan_id :: nat
  i_reg :: "'s RpcHandlerRegistry"
  access_controller :: "'s AccessController option"
  active_timeout :: bool
  active_keepalive :: bool
  state :: RpcState
  default_policy :: "unit jsval"
  reg :: "'s RpcHandlerRegistry"
  opts :: RpcChannelOpts
  sent :: "(RpcMessage \<times> nat list) list"
  start_waiters :: nat
  close_listeners :: "(nat \<times> string list) list"
  settled :: "((nat \<times> nat) \<times> outcome) list"
  user :: "nat \<Rightarrow> string list \<Rightarrow> sdata list \<Rightarrow> rpc_result"
  invoked :: "(nat \<times> string list \<times> sdata list) list"
  ac_state :: 's

text \<open>
  \<open>send\<close>: serialize the arguments into a fresh transfer list and hand the message to
  \<open>c_send\<close>. The first component of the result is the exception thrown, if any.
\<close>

definition send ::
  "'s RpcChannel \<Rightarrow> string list \<Rightarrow> unit jsval list \<Rightarrow> string list option \<Rightarrow> return_type
     \<Rightarrow> unit jsval option \<times> 's RpcChannel" where
  "send ch to' args' return_addr' return_type' =
     (case serialize_all args' [] of
        (Inl err, xfer) \<Rightarrow> (Some err, ch)
      | (Inr sargs, xfer) \<Rightarrow>
          (None, ch\<lparr>sent := sent ch @
             [(\<lparr>to = to', args = sargs, return_addr = return_addr',
                return_type = Some return_type'\<rparr>, xfer)]\<rparr>))"

definition resetTimeout :: "'s RpcChannel \<Rightarrow> 's RpcChannel" where
  "resetTimeout ch =
     (let ch1 = ch\<lparr>active_timeout := False\<rparr>
      in if state ch1 \<noteq> ACTIVE then ch1
         else if timeout (opts ch1) \<noteq> 0 then ch1\<lparr>active_timeout := True\<rparr>
         else ch1)"

text \<open>\<open>sendKeepAlive\<close> swallows whatever \<open>send\<close> throws (\<open>try { ... } catch (e) { }\<close>).\<close>

definition sendKeepAlive :: "'s RpcChannel \<Rightarrow> 's RpcChannel" where
  "sendKeepAlive ch =
     (if keep_alive_on (opts ch) then snd (send ch [''_'', ''keepalive''] [] None promise) else ch)"

definition resetKeepAlive :: "'s RpcChannel \<Rightarrow> 's RpcChannel" where
  "resetKeepAlive ch =
     (let ch1 = sendKeepAlive ch;
          ch2 = ch1\<lparr>active_keepalive := False\<rparr>
      in if keep_alive_on (opts ch2) then ch2\<lparr>active_keepalive := True\<rparr> else ch2)"

text \<open>The constructor: registers the close notice, then \<open>resetKeepAlive()\<close>.\<close>

definition new_RpcChannel ::
  "nat \<Rightarrow> unit jsval \<Rightarrow> 's RpcHandlerRegistry \<Rightarrow> RpcChannelOpts
     \<Rightarrow> (nat \<Rightarrow> string list \<Rightarrow> sdata list \<Rightarrow> rpc_result) \<Rightarrow> 's \<Rightarrow> 's RpcChannel" where
  "new_RpcChannel ident default_policy' reg' opts' user' s =
     resetKeepAlive
       \<lparr> chan_id = ident,
         i_reg = register new_RpcHandlerRegistry [Some ''_'', Some ''close''] CloseHandler,
         access_controller = Some (ChainedAccessController_can [] NONE),
         active_timeout = False, active_keepalive = False, state = INACTIVE,
         default_policy = default_policy', reg = reg', opts = opts', sent = [],
         start_waiters = 0, close_listeners = [], settled = [], user = user', invoked = [],
         ac_state = s \<rparr>"

text \<open>A promise settles once: later \<open>resolve\<close>/\<open>reject\<close> calls are ignored.\<close>

definition settle :: "nat \<times> nat \<Rightarrow> outcome \<Rightarrow> 's RpcChannel \<Rightarrow> 's RpcChannel" where
  "settle k out ch =
     (case map_of (settled ch) k of
        None \<Rightarrow> ch\<lparr>settled := settled ch @ [(k, out)]\<rparr>
      | Some _ \<Rightarrow> ch)"

text \<open>
  \<open>emit('close')\<close>: each \<open>onChannelClose\<close> of a pending \<open>call\<close> runs \<open>onDone()\<close>
  (\<open>this.unregister(return_addr)\<close>, which goes to \<open>this.reg\<close>, and \<open>this.off\<close>) and
  rejects with \<open>Error('Channel closed')\<close>.
\<close>

fun onChannelClose :: "(nat \<times> string list) list \<Rightarrow> 's RpcChannel \<Rightarrow> 's RpcChannel" where
  "onChannelClose [] ch = ch"
| "onChannelClose ((k, addr) # ls) ch =
     onChannelClose ls
       (settle (chan_id ch, k) (Rejected ChannelClosed)
          (ch\<lparr>reg := unregister (reg ch) (map Some addr)\<rparr>))"

definition stateChange :: "'s RpcChannel \<Rightarrow> RpcState \<Rightarrow> 's RpcChannel" where
  "stateChange ch st =
     (let ch1 = ch\<lparr>state := st\<rparr>
      in case st of
           CLOSED \<Rightarrow> (onChannelClose (close_listeners ch1) ch1)\<lparr>close_listeners := []\<rparr>
         | _ \<Rightarrow> ch1)"

text \<open>
  \<open>start()\<close> after its \<open>await\<close>, and the suspended \<open>start()\<close> calls resuming: the
  events \<open>rawmessage\<close> and \<open>close\<close> resolve their promise, and they continue once
  the synchronous code that emitted the event has returned.
\<close>

definition start_continue :: "'s RpcChannel \<Rightarrow> 's RpcChannel" where
  "start_continue ch =
     (if state ch \<noteq> INACTIVE then ch else resetTimeout (stateChange ch ACTIVE))"

definition resume_waiters :: "'s RpcChannel \<Rightarrow> 's RpcChannel" where
  "resume_waiters ch =
     (if start_waiters ch = 0 then ch else start_continue (ch\<lparr>start_waiters := 0\<rparr>))"

definition start :: "'s RpcChannel \<Rightarrow> 's RpcChannel" where
  "start ch =
     (if state ch \<noteq> INACTIVE then ch
      else if await_first_msg (opts ch) then ch\<lparr>start_waiters := Suc (start_waiters ch)\<rparr>
      else start_continue ch)"

definition close :: "'s RpcChannel \<Rightarrow> bool \<Rightarrow> 's RpcChannel" where
  "close ch send' =
     (if state ch = CLOSED then ch
      else
        let ch1 = (if send' then snd (send ch [''_'', ''close''] [] None promise) else ch);
            ch2 = stateChange ch1 CLOSED;
            ch3 = ch2\<lparr>i_reg := clear (i_reg ch2)\<rparr>;
            ch4 = ch3\<lparr>active_timeout := False, active_keepalive := False\<rparr>
        in resume_waiters ch4)"

text \<open>
  \<open>setTimeout(timeout, keep_alive_interval)\<close> is
  \<open>Object.assign(this._opts, { timeout, keep_alive_interval })\<close>, then both resets.
\<close>

definition setTimeout :: "'s RpcChannel \<Rightarrow> nat \<Rightarrow> nat \<Rightarrow> 's RpcChannel" where
  "setTimeout ch timeout' keep_alive_interval' =
     resetKeepAlive (resetTimeout
       (ch\<lparr>opts := (opts ch)\<lparr>timeout := timeout', keep_alive_interval := keep_alive_interval'\<rparr>\<rparr>))"

definition setAwaitFirstMsg :: "'s RpcChannel \<Rightarrow> bool \<Rightarrow> 's RpcChannel" where
  "setAwaitFirstMsg ch should = ch\<lparr>opts := (opts ch)\<lparr>await_first_msg := should\<rparr>\<rparr>"

text \<open>
  \<open>call\<close>: allocate the return address, register the resolver in \<open>_i_reg\<close>, listen
  for \<open>close\<close>, send. The promise is named by the sequence number used; an exception
  in the executor (a value that cannot be serialized) rejects it.
\<close>

definition call ::
  "'s RpcChannel \<Rightarrow> string list \<Rightarrow> unit jsval list \<Rightarrow> nat \<times> 's RpcChannel" where
  "call ch to' args' =
     (let k = return_seq_id (i_reg ch);
          (return_addr', r) = nextSeqAddr (i_reg ch);
          ch1 = ch\<lparr>i_reg := register r (map Some return_addr') (ReturnHandler (chan_id ch) k)\<rparr>;
          ch2 = ch1\<lparr>close_listeners := close_listeners ch1 @ [(k, return_addr')]\<rparr>
      in case send ch2 to' args' (Some return_addr') promise of
           (Some err, ch3) \<Rightarrow> (k, settle (chan_id ch, k) (Rejected (SendFailed err)) ch3)
         | (None, ch3) \<Rightarrow> (k, ch3))"

text \<open>Truthiness and property access on received (serialized) data.\<close>

fun struthy :: "sdata \<Rightarrow> bool" where
  "struthy SUndefined = False"
| "struthy SNull = False"
| "struthy (SBool b) = b"
| "struthy (SNum n) = (n \<noteq> 0)"
| "struthy (SBigInt n) = (n \<noteq> 0)"
| "struthy (SStr s) = (s \<noteq> [])"
| "struthy _ = True"

fun sprop :: "sdata \<Rightarrow> string \<Rightarrow> sdata" where
  "sprop (SObject kvs) k = (case map_of kvs k of None \<Rightarrow> SUndefined | Some v \<Rightarrow> v)"
| "sprop _ k = SUndefined"

text \<open>A parameter with no argument is \<open>undefined\<close>.\<close>

definition arg :: "sdata list \<Rightarrow> nat \<Rightarrow> sdata" where
  "arg as i = (if i < length as then as ! i else SUndefined)"

text \<open>
  Calling a registered function as \<open>func(this, wc, ...val.args)\<close>.
  The resolver of \<open>call\<close> settles its promise and runs \<open>onDone()\<close>; when it is called
  by a channel other than its owner, the owner's registry and listeners are not part of
  this channel's state and only the rejection is recorded.
  \<open>setDone\<close> marks its stream as done and calls \<open>this.unregister\<close>.
\<close>

fun invoke ::
  "handler \<Rightarrow> 's RpcChannel \<Rightarrow> string list \<Rightarrow> sdata list \<Rightarrow> rpc_result \<times> 's RpcChannel" where
  "invoke CloseHandler ch wc as = (Returns (Plain Undefined), close ch False)"
| "invoke (ReturnHandler owner k) ch wc as =
     (if chan_id ch \<noteq> owner
      then (Returns (Plain Undefined), settle (owner, k) (Rejected InvalidChannelError) ch)
      else
        let data = arg as 0; error = arg as 1;
            ch1 = (if struthy error
                   then (if struthy (sprop error ''name'')
                         then settle (owner, k) (Rejected (ForwardedError error)) ch
                         else settle (owner, k) (Rejected (RemoteError error)) ch)
                   else settle (owner, k) (Resolved data) ch);
            ch2 = ch1\<lparr>reg := unregister (reg ch1) (map Some (seq_addr k)),
                      close_listeners := filter (\<lambda>l. fst l \<noteq> k) (close_listeners ch1)\<rparr>
        in (Returns (Plain Undefined), ch2))"
| "invoke (StopgenHandler addr) ch wc as =
     (Returns (Plain Undefined),
      ch\<lparr>reg := unregister (reg ch) (map Some ([''_'', ''stopgen''] @ addr))\<rparr>)"
| "invoke (UserHandler n) ch wc as =
     (user ch n wc as, ch\<lparr>invoked := invoked ch @ [(n, wc, as)]\<rparr>)"
| "invoke (Remapped f g) ch wc as = invoke f ch wc as"

text \<open>
  \<open>maybeReturn(data, error)\<close>, the closure inside \<open>receive\<close> over the message \<open>val\<close>.
  Under \<open>'generator'\<close> a plain value is sent as one frame followed by the done frame,
  after which \<open>setDone()\<close> unregisters the stop notice; an async generator only gets its
  stop handler registered here.
\<close>

definition maybeReturn ::
  "'s RpcChannel \<Rightarrow> RpcMessage \<Rightarrow> rpc_data \<Rightarrow> unit jsval \<Rightarrow> unit jsval option \<times> 's RpcChannel" where
  "maybeReturn ch val data error =
     (case return_addr val of
        None \<Rightarrow> (None, ch)
      | Some addr \<Rightarrow>
          (case return_type val of
             Some generator \<Rightarrow>
               if truthy error then send ch addr [Undefined, error, Bool True] None promise
               else (case data of
                       APromise \<Rightarrow> (None, ch)
                     | AGenerator \<Rightarrow>
                         (None, ch\<lparr>i_reg := register (i_reg ch)
                                     (map Some ([''_'', ''stopgen''] @ addr)) (StopgenHandler addr)\<rparr>)
                     | Plain d \<Rightarrow>
                         (case send ch addr [d, Undefined, Bool False] None promise of
                            (Some e, ch1) \<Rightarrow> (Some e, ch1)
                          | (None, ch1) \<Rightarrow>
                              (case send ch1 addr [Undefined, Undefined, Bool True] None promise of
                                 (Some e, ch2) \<Rightarrow> (Some e, ch2)
                               | (None, ch2) \<Rightarrow>
                                   (None, ch2\<lparr>reg := unregister (reg ch2)
                                                 (map Some ([''_'', ''stopgen''] @ addr))\<rparr>))))
           | _ \<Rightarrow>
               if truthy error then send ch addr [Undefined, error] None promise
               else (case data of
                       Plain d \<Rightarrow> send ch addr [d, Undefined] None promise
                     | _ \<Rightarrow> (None, ch))))"

text \<open>
  \<open>RpcChannel.can\<close>: the channel's own controller if there is one, then the internal
  registry (a chained controller), then \<open>default_policy\<close>. The result comes with the
  controllers' state.
\<close>

definition can :: "'s RpcChannel \<Rightarrow> string list \<Rightarrow> CanCallOpts \<Rightarrow> unit jsval \<times> 's" where
  "can ch addr os =
     (case (case access_controller ch of
              None \<Rightarrow> (Undefined, ac_state ch)
            | Some ac \<Rightarrow> ac addr os (ac_state ch)) of
        (val, s1) \<Rightarrow>
          if isDefined val then (val, s1)
          else (case ChainedAccessController_can (access_chain (i_reg ch)) (default_ap (i_reg ch))
                       addr os s1 of
                  (val', s2) \<Rightarrow> if isDefined val' then (val', s2) else (default_policy ch, s2)))"

text \<open>
  \<open>const wc = []; const func = this._i_reg.map.get(val.to, wc) || this.reg.map.get(val.to, wc)\<close>:
  the function found, \<open>val.to\<close> as the lookups leave it, and \<open>wc\<close>.
\<close>

definition sink :: "string list option \<Rightarrow> string list" where
  "sink wc = (case wc of None \<Rightarrow> [] | Some w \<Rightarrow> w)"

definition find_func ::
  "'s RpcChannel \<Rightarrow> RpcMessage \<Rightarrow> handler jsval \<times> string list \<times> string list" where
  "find_func ch val =
     (case AddressMap_get (map_reg (i_reg ch)) (to val) (Some []) of
        (f1, to1, wc1) \<Rightarrow>
          if truthy f1 then (f1, to1, sink wc1)
          else (case AddressMap_get (map_reg (reg ch)) to1 wc1 of
                  (f2, to2, wc2) \<Rightarrow> (f2, to2, sink wc2)))"

definition security_policy :: "'s RpcChannel \<Rightarrow> RpcMessage \<Rightarrow> unit jsval \<times> 's" where
  "security_policy ch val =
     (case find_func ch val of
        (func, to', wc) \<Rightarrow> can ch to' \<lparr>opts_args = args val, opts_wc = wc, opts_func = func\<rparr>)"

text \<open>
  \<open>receive(val)\<close>: nothing if \<open>CLOSED\<close>; \<open>emit('rawmessage')\<close> (the timeout is reset,
  suspended \<open>start()\<close> calls will resume); lookup; access decision; missing function;
  guarded call. The first component of the result is an exception that leaves
  \<open>receive\<close> (thrown by \<open>send\<close> when a result cannot be serialized).
\<close>

definition receive :: "'s RpcChannel \<Rightarrow> RpcMessage \<Rightarrow> unit jsval option \<times> 's RpcChannel" where
  "receive ch val =
     (if state ch = CLOSED then (None, ch)
      else
        let ch0 = resetTimeout ch in
        case find_func ch0 val of (func, to', wc) \<Rightarrow>
        case security_policy ch0 val of (policy, s') \<Rightarrow>
        let ch1 = ch0\<lparr>ac_state := s'\<rparr>;
            r = (if isDefined policy \<and> policy = DENY
                 then maybeReturn ch1 val (Plain Undefined)
                        (new_error ''AccessDeniedError'' ''Access denied'')
                 else if \<not> truthy func
                 then maybeReturn ch1 val (Plain Undefined)
                        (new_error ''TypeError'' ''Function at address is undefined'')
                 else (case func of
                         Function h \<Rightarrow>
                           (case invoke h ch1 wc (args val) of
                              (Throws e, ch2) \<Rightarrow> maybeReturn ch2 val (Plain Undefined) e
                            | (Returns data, ch2) \<Rightarrow> maybeReturn ch2 val data Undefined)
                       | _ \<Rightarrow> maybeReturn ch1 val (Plain Undefined)
                                (new_error ''TypeError'' ''func is not a function'')))
        in (fst r, resume_waiters (snd r)))"

text \<open>
  The operations on a channel: its methods and the timer events. A timer event does
  something only while its timer is armed; the timeout callback is
  \<open>this.close(); delete this.active_timeout\<close>. \<open>stop\<close> is \<open>() => this.close()\<close>.
\<close>

datatype operation =
    Start
  | Close bool
  | Stop
  | Receive RpcMessage
  | TimeoutExpiry
  | KeepAliveTick
  | Call "string list" "unit jsval list"
  | Send "string list" "unit jsval list" "string list option" return_type
  | Register "string option list" handler
  | Unregister "string option list"
  | SetTimeout nat nat
  | SetAwaitFirstMsg bool

fun step :: "'s RpcChannel \<Rightarrow> operation \<Rightarrow> 's RpcChannel" where
  "step ch Start = start ch"
| "step ch (Close send') = close ch send'"
| "step ch (Receive val) = snd (receive ch val)"
| "step ch TimeoutExpiry =
     (if active_timeout ch then (close ch True)\<lparr>active_timeout := False\<rparr> else ch)"
| "step ch KeepAliveTick = (if active_keepalive ch then sendKeepAlive ch else ch)"
| "step ch (Call to' args') = snd (call ch to' args')"
| "step ch Stop = close ch True"
| "step ch (Send to' args' return_addr' return_type') =
     snd (send ch to' args' return_addr' return_type')"
| "step ch (Register address func) = ch\<lparr>reg := register (reg ch) address func\<rparr>"
| "step ch (Unregister address) = ch\<lparr>reg := unregister (reg ch) address\<rparr>"
| "step ch (SetTimeout timeout' keep_alive_interval') = setTimeout ch timeout' keep_alive_interval'"
| "step ch (SetAwaitFirstMsg should) = setAwaitFirstMsg ch should"

definition run :: "'s RpcChannel \<Rightarrow> operation list \<Rightarrow> 's RpcChannel" where
  "run ch ops = foldl step ch ops"

section \<open>Notions used to state the properties\<close>

text \<open>
  \<open>table_at P m\<close> is the sub-table \<open>m[k1][k2]...\<close> that \<open>put\<close> reaches along the
  pattern \<open>P\<close>, if it exists, and \<open>stored_at P m\<close> its \<open>DefaultEntryKey\<close>: the value
  stored under exactly \<open>P\<close>. \<open>key\<close> is the key \<open>put\<close> uses for a segment, with
  \<open>None\<close> for the wildcard key.
\<close>

fun table_at :: "string option list \<Rightarrow> 'f AddressMapFlat \<Rightarrow> 'f AddressMapFlat option" where
  "table_at [] m = Some m"
| "table_at (part # addr) m =
     (if is_wildcard part
      then (case WildcardEntry m of None \<Rightarrow> None | Some t \<Rightarrow> table_at addr t)
      else (case map_of (entries m) (the part) of None \<Rightarrow> None | Some t \<Rightarrow> table_at addr t))"

definition stored_at :: "string option list \<Rightarrow> 'f AddressMapFlat \<Rightarrow> 'f jsval" where
  "stored_at P m = (case table_at P m of None \<Rightarrow> Undefined | Some t \<Rightarrow> DefaultEntry t)"

definition key :: "string option \<Rightarrow> string option" where
  "key part = (if is_wildcard part then None else part)"

text \<open>The pattern \<open>P\<close> matches the concrete address \<open>A\<close>: same length, and each segment
  of \<open>P\<close> is a wildcard or the segment of \<open>A\<close>.\<close>

definition differs_only_by_wildcards :: "string option list \<Rightarrow> string list \<Rightarrow> bool" where
  "differs_only_by_wildcards P A = list_all2 (\<lambda>p a. is_wildcard p \<or> p = Some a) P A"

text \<open>The segments of the address \<open>A\<close> at the wildcard positions of the pattern \<open>P\<close>.\<close>

fun captures :: "string option list \<Rightarrow> string list \<Rightarrow> string list" where
  "captures (p # P) (a # A) = (if is_wildcard p then a # captures P A else captures P A)"
| "captures _ _ = []"

text \<open>
  \<open>forget_stacks d\<close> erases the stack of every \<open>Error\<close> in \<open>d\<close> that is reached
  through arrays and plain objects; a value with a serialization hook is left as it is.
\<close>

fun forget_stacks :: "'f jsval \<Rightarrow> 'f jsval" where
  "forget_stacks (Error e) = Error (e\<lparr>stack := SUndefined\<rparr>)"
| "forget_stacks (Array es) = Array (map forget_stacks es)"
| "forget_stacks (Object kvs) = Object (map (\<lambda>(k, v). (k, forget_stacks v)) kvs)"
| "forget_stacks v = v"

text \<open>Two lookup results agree up to the falsy value they carry.\<close>

definition sim :: "'f jsval \<times> 'a \<Rightarrow> 'f jsval \<times> 'a \<Rightarrow> bool" where
  "sim r1 r2 = (snd r1 = snd r2 \<and> (fst r1 = fst r2 \<or> \<not> truthy (fst r1) \<and> \<not> truthy (fst r2)))"

text \<open>
  \<open>all_undecided chain addr os s\<close>: the controllers of \<open>chain\<close>, called one after
  the other from the state \<open>s\<close>, all answer \<open>undefined\<close> or \<open>null\<close>; the result is
  the state they leave.
\<close>

fun all_undecided ::
  "'s AccessController list \<Rightarrow> string list \<Rightarrow> CanCallOpts \<Rightarrow> 's \<Rightarrow> 's option" where
  "all_undecided [] addr os s = Some s"
| "all_undecided (ctrl # chain) addr os s =
     (case ctrl addr os s of (val, s') \<Rightarrow>
        if isDefined val then None else all_undecided chain addr os s')"

text \<open>
  A controller that records its call and answers a fixed verdict (the controllers of the
  test "calls in order with same data, stopping when value provided").
\<close>

definition logging :: "nat \<Rightarrow> unit jsval \<Rightarrow> nat list AccessController" where
  "logging n verdict addr os calls = (verdict, calls @ [n])"

text \<open>
  \<open>allocate N r\<close>: \<open>N\<close> successive calls of \<open>nextSeqAddr\<close> on the registry \<open>r\<close>, with the
  addresses they return, in order.
\<close>

fun allocate :: "nat \<Rightarrow> 's RpcHandlerRegistry \<Rightarrow> string list list \<times> 's RpcHandlerRegistry" where
  "allocate 0 r = ([], r)"
| "allocate (Suc n) r =
     (case nextSeqAddr r of (a, r') \<Rightarrow>
        (case allocate n r' of (as, r'') \<Rightarrow> (a # as, r'')))"

text \<open>
  The position of a state on the line \<open>INACTIVE\<close>, \<open>ACTIVE\<close>, \<open>CLOSED\<close>.
\<close>

fun rank :: "RpcState \<Rightarrow> nat" where
  "rank INACTIVE = 0"
| "rank ACTIVE = 1"
| "rank CLOSED = 2"

text \<open>
  The reply that \<open>maybeReturn(undefined, new E(msg))\<close> sends for a message \<open>val\<close>:
  nothing without \<open>return_addr\<close>, else \<open>[undefined, error]\<close> (with a third argument
  \<open>true\<close> under \<open>'generator'\<close>), the error serialized.
\<close>

definition error_reply :: "RpcMessage \<Rightarrow> string \<Rightarrow> string \<Rightarrow> (RpcMessage \<times> nat list) list" where
  "error_reply val nm msg =
     (case return_addr val of
        None \<Rightarrow> []
      | Some addr \<Rightarrow>
          [(\<lparr>to = addr,
             args = [SUndefined,
                     SObject [(''name'', SStr nm), (''message'', SStr msg),
                              (''stack'', SStr ''Stack trace redacted for security reasons''),
                              (''columnNumber'', SUndefined), (''lineNumber'', SUndefined),
                              (''fileName'', SUndefined)]]
                    @ (if return_type val = Some generator then [SBool True] else []),
             return_addr = None, return_type = Some promise\<rparr>, [])])"

text \<open>
  Channels and messages for the examples: two fresh channels without timers or
  handlers, one that denies by default, one with a timeout that awaits its first
  message, one with a handler registered at \<open>["net","x",undefined]\<close>, one with a
  handler registered at \<open>["a",""]\<close>.
\<close>

definition opts0 :: RpcChannelOpts where
  "opts0 = \<lparr>timeout = 0, keep_alive_interval = 0, await_first_msg = False\<rparr>"

definition no_user :: "nat \<Rightarrow> string list \<Rightarrow> sdata list \<Rightarrow> rpc_result" where
  "no_user n wc as = Returns (Plain Undefined)"

definition chanA :: "unit RpcChannel" where
  "chanA = new_RpcChannel 1 ALLOW new_RpcHandlerRegistry opts0 no_user ()"

definition chanB :: "unit RpcChannel" where
  "chanB = new_RpcChannel 2 ALLOW new_RpcHandlerRegistry opts0 no_user ()"

definition chanD :: "unit RpcChannel" where
  "chanD = new_RpcChannel 3 DENY new_RpcHandlerRegistry opts0 no_user ()"

definition chanT :: "unit RpcChannel" where
  "chanT = new_RpcChannel 4 ALLOW new_RpcHandlerRegistry
             \<lparr>timeout = 20, keep_alive_interval = 0, await_first_msg = True\<rparr> no_user ()"

definition chanH :: "unit RpcChannel" where
  "chanH = new_RpcChannel 5 ALLOW
             (register new_RpcHandlerRegistry [Some ''net'', Some ''x'', None] (UserHandler 7))
             opts0 no_user ()"

definition chanE :: "unit RpcChannel" where
  "chanE = new_RpcChannel 6 ALLOW
             (register new_RpcHandlerRegistry [Some ''a'', Some ''''] (UserHandler 7))
             opts0 no_user ()"

definition call_missing :: RpcMessage where
  "call_missing = \<lparr>to = [''net'', ''x'', ''missing''], args = [],
                    return_addr = Some [''_'', ''ret'', ''id0''], return_type = Some promise\<rparr>"

definition call_empty_segment :: RpcMessage where
  "call_empty_segment = \<lparr>to = [''a'', ''''], args = [],
                          return_addr = Some [''_'', ''ret'', ''id0''], return_type = Some promise\<rparr>"

definition close_notice :: RpcMessage where
  "close_notice = \<lparr>to = [''_'', ''close''], args = [], return_addr = None, return_type = Some promise\<rparr>"

definition keepalive :: RpcMessage where
  "keepalive = \<lparr>to = [''_'', ''keepalive''], args = [], return_addr = None, return_type = Some promise\<rparr>"

definition undefined_function_error :: sdata where
  "undefined_function_error =
     SObject [(''name'', SStr ''TypeError''), (''message'', SStr ''Function at address is undefined''),
              (''stack'', SStr ''Stack trace redacted for security reasons''),
              (''columnNumber'', SUndefined), (''lineNumber'', SUndefined),
              (''fileName'', SUndefined)]"

definition access_denied_error :: sdata where
  "access_denied_error =
     SObject [(''name'', SStr ''AccessDeniedError''), (''message'', SStr ''Access denied''),
              (''stack'', SStr ''Stack trace redacted for security reasons''),
              (''columnNumber'', SUndefined), (''lineNumber'', SUndefined),
              (''fileName'', SUndefined)]"

lemmas channel_defs = new_RpcChannel_def resetKeepAlive_def sendKeepAlive_def
  keep_alive_on_def register_def unregister_def clear_def AddressMap_clear_def
  new_RpcHandlerRegistry_def empty_table_def isUndef_def
  call_def nextSeqAddr_def seq_addr_def digit_def js_increment_def send_def Let_def
  receive_def resetTimeout_def find_func_def security_policy_def can_def
  ChainedAccessController_can_def AddressMap_get_def sink_def maybeReturn_def new_error_def redacted_def
  resume_waiters_def start_continue_def start_def close_def stateChange_def settle_def arg_def run_def

lemmas fixture_defs = opts0_def no_user_def chanA_def chanB_def chanD_def chanT_def chanH_def
  chanE_def call_missing_def call_empty_segment_def close_notice_def keepalive_def undefined_function_error_def access_denied_error_def

section \<open>AddressMap: lookup\<close>

lemma stored_at_Nil [simp]: "stored_at [] m = DefaultEntry m"
  by (simp add: stored_at_def)

lemma stored_at_Cons:
  "stored_at (part # addr) m =
     (if is_wildcard part
      then (case WildcardEntry m of None \<Rightarrow> Undefined | Some t \<Rightarrow> stored_at addr t)
      else (case map_of (entries m) (the part) of None \<Rightarrow> Undefined | Some t \<Rightarrow> stored_at addr t))"
  by (simp add: stored_at_def split: option.splits)

lemma stored_at_empty [simp]: "stored_at P empty_table = Undefined"
  by (cases P) (auto simp: empty_table_def stored_at_Cons)

lemma stored_at_put_same:
  "stored_at P (AddressMap_put P val m) = (if isUndef val then Undefined else val)"
proof (induction P arbitrary: m)
  case Nil
  then show ?case by (cases m) simp
next
  case (Cons part P)
  then show ?case by (cases m) (simp add: update_conv' stored_at_Cons)
qed

lemma stored_at_put_other:
  "map key Q \<noteq> map key P \<Longrightarrow> stored_at Q (AddressMap_put P val m) = stored_at Q m"
proof (induction P arbitrary: Q m)
  case Nil
  then show ?case by (cases m; cases Q) (auto simp: stored_at_Cons)
next
  case (Cons part P)
  obtain es w d where m: "m = Flat es w d" by (cases m)
  show ?case
  proof (cases Q)
    case Nil
    then show ?thesis by (simp add: m)
  next
    case Q: (Cons q Q')
    show ?thesis
    proof (cases "key q = key part")
      case True
      with Cons.prems Q have "map key Q' \<noteq> map key P" by simp
      from Cons.IH [OF this] True show ?thesis
        by (cases part; cases q)
           (auto simp: m Q key_def update_conv' stored_at_Cons split: option.splits if_splits)
    next
      case False
      then show ?thesis
        by (cases part; cases q)
           (auto simp: m Q key_def update_conv' stored_at_Cons split: option.splits if_splits)
    qed
  qed
qed

lemma table_at_put_same:
  "table_at P m = Some t \<Longrightarrow>
     table_at P (AddressMap_put P val m)
       = Some (Flat (entries t) (WildcardEntry t) (if isUndef val then Undefined else val))"
proof (induction P arbitrary: m)
  case Nil
  then show ?case by (cases m) auto
next
  case (Cons part P)
  then show ?case by (cases m) (auto simp: update_conv' split: option.splits if_splits)
qed

lemma getFromAddrMapFlat_literal:
  "\<forall>s \<in> set A. s \<noteq> [] \<Longrightarrow> truthy (stored_at (map Some A) m)
     \<Longrightarrow> getFromAddrMapFlat m A wc = (stored_at (map Some A) m, A, wc)"
proof (induction A arbitrary: m)
  case Nil
  then show ?case by simp
next
  case (Cons part A)
  then show ?case by (auto simp: stored_at_Cons split: option.splits)
qed

lemma AddressMap_get_literal:
  "\<forall>s \<in> set A. s \<noteq> [] \<Longrightarrow> truthy (stored_at (map Some A) m)
     \<Longrightarrow> AddressMap_get m A wc = (stored_at (map Some A) m, A, wc)"
  by (simp add: AddressMap_get_def getFromAddrMapFlat_literal)

lemma key_literal: "\<forall>s \<in> set A. s \<noteq> [] \<Longrightarrow> map key (map Some A) = map Some A"
  by (induction A) (auto simp: key_def)

lemma wildcard_pattern_differs:
  assumes "\<forall>s \<in> set A. s \<noteq> []" and "\<exists>p \<in> set P. is_wildcard p"
  shows "map key (map Some A) \<noteq> map key P"
proof
  assume eq: "map key (map Some A) = map key P"
  from assms(2) have "None \<in> set (map key P)" by (force simp: key_def)
  with eq key_literal [OF assms(1)] have "None \<in> set (map Some A)" by simp
  then show False by auto
qed

lemma addr_restored:
  "\<forall>s \<in> set A. s \<noteq> [] \<Longrightarrow> fst (snd (getFromAddrMapFlat m A wc)) = A"
proof (induction A arbitrary: m wc)
  case Nil
  then show ?case by simp
next
  case (Cons part A)
  then show ?case by (simp add: Let_def split: option.splits)
qed

lemma truthy_result_is_stored:
  "\<forall>s \<in> set A. s \<noteq> [] \<Longrightarrow> truthy (fst (getFromAddrMapFlat m A wc))
     \<Longrightarrow> \<exists>Q. differs_only_by_wildcards Q A \<and> stored_at Q m = fst (getFromAddrMapFlat m A wc)"
proof (induction A arbitrary: m wc)
  case Nil
  have "differs_only_by_wildcards [] []" by (simp add: differs_only_by_wildcards_def)
  then show ?case by (intro exI [of _ "[]"]) simp
next
  case (Cons part A)
  from Cons.prems have ne: "part \<noteq> []" and neA: "\<forall>s \<in> set A. s \<noteq> []" by auto
  define r1 where "r1 = (case map_of (entries m) part of
                    None \<Rightarrow> (Undefined, A, wc)
                  | Some sub \<Rightarrow> getFromAddrMapFlat sub A wc)"
  have a1: "fst (snd r1) = A"
    by (simp add: r1_def addr_restored [OF neA] split: option.splits)
  show ?case
  proof (cases "truthy (fst r1)")
    case True
    then obtain sub where sub: "map_of (entries m) part = Some sub"
      by (auto simp: r1_def split: option.splits)
    with True have "truthy (fst (getFromAddrMapFlat sub A wc))" by (simp add: r1_def)
    from Cons.IH [OF neA this] obtain Q where
      Q: "differs_only_by_wildcards Q A" "stored_at Q sub = fst (getFromAddrMapFlat sub A wc)"
      by blast
    have "differs_only_by_wildcards (Some part # Q) (part # A)"
      using Q(1) by (simp add: differs_only_by_wildcards_def)
    moreover have "stored_at (Some part # Q) m = fst (getFromAddrMapFlat m (part # A) wc)"
      using Q(2) True sub ne by (simp add: r1_def Let_def stored_at_Cons)
    ultimately show ?thesis by blast
  next
    case False
    with Cons.prems(2) ne obtain w where w: "WildcardEntry m = Some w"
      and res: "fst (getFromAddrMapFlat m (part # A) wc)
                  = fst (getFromAddrMapFlat w A (map_option (\<lambda>w. w @ [part]) (snd (snd r1))))"
      using a1 by (cases "WildcardEntry m") (auto simp: r1_def Let_def split: option.splits)
    with Cons.prems(2)
    have "truthy (fst (getFromAddrMapFlat w A (map_option (\<lambda>w. w @ [part]) (snd (snd r1)))))"
      by simp
    from Cons.IH [OF neA this] obtain Q where
      Q: "differs_only_by_wildcards Q A"
         "stored_at Q w = fst (getFromAddrMapFlat w A (map_option (\<lambda>w. w @ [part]) (snd (snd r1))))"
      by blast
    have "differs_only_by_wildcards (None # Q) (part # A)"
      using Q(1) by (simp add: differs_only_by_wildcards_def)
    moreover have "stored_at (None # Q) m = fst (getFromAddrMapFlat m (part # A) wc)"
      using Q(2) w res by (simp add: stored_at_Cons)
    ultimately show ?thesis by blast
  qed
qed

lemma stored_at_key_cong: "map key Q = map key P \<Longrightarrow> stored_at Q m = stored_at P m"
proof (induction Q arbitrary: P m)
  case Nil
  then show ?case by simp
next
  case (Cons q Q)
  then obtain p P' where P: "P = p # P'" by (cases P) auto
  with Cons.prems have k: "key q = key p" and "map key Q = map key P'" by auto
  note IH = Cons.IH [OF this(2)]
  from k show ?case
    by (cases q; cases p) (auto simp: P key_def stored_at_Cons IH split: option.splits if_splits)
qed

lemma sim_refl [simp]: "sim r r" by (simp add: sim_def)

lemma getFlat_falsy_put:
  "\<not> truthy v \<Longrightarrow>
     sim (getFromAddrMapFlat (AddressMap_put P v m) B wc)
         (getFromAddrMapFlat (AddressMap_put P Undefined m) B wc)"
proof (induction P arbitrary: m B wc)
  case Nil
  obtain es w d where m: "m = Flat es w d" by (cases m)
  show ?case
  proof (cases B)
    case Nil
    with \<open>\<not> truthy v\<close> show ?thesis by (simp add: m sim_def isUndef_def)
  next
    case (Cons b B')
    with \<open>\<not> truthy v\<close> show ?thesis by (simp add: m sim_def isUndef_def Let_def)
  qed
next
  case (Cons p P)
  obtain es w d where m: "m = Flat es w d" by (cases m)
  note IH = Cons.IH [OF Cons.prems]
  show ?case
  proof (cases B)
    case Nil
    then show ?thesis by (simp add: m sim_def)
  next
    case B: (Cons b B')
    show ?thesis
    proof (cases "b = []")
      case True
      then show ?thesis by (simp add: m B sim_def)
    next
      case b: False
      show ?thesis
      proof (cases "is_wildcard p")
        case True
        define r1 where "r1 = (case map_of es b of None \<Rightarrow> (Undefined, B', wc)
                                | Some sub \<Rightarrow> getFromAddrMapFlat sub B' wc)"
        define w0 where "w0 = (case w of None \<Rightarrow> empty_table | Some t \<Rightarrow> t)"
        have "sim (getFromAddrMapFlat (AddressMap_put P v w0) (fst (snd r1))
                     (map_option (\<lambda>w. w @ [b]) (snd (snd r1))))
                  (getFromAddrMapFlat (AddressMap_put P Undefined w0) (fst (snd r1))
                     (map_option (\<lambda>w. w @ [b]) (snd (snd r1))))"
          by (rule IH)
        then show ?thesis
          using True b by (simp add: m B Let_def r1_def [symmetric] w0_def [symmetric] sim_def)
      next
        case False
        then obtain s where p: "p = Some s" "s \<noteq> []" by (cases p) auto
        define c0 where "c0 = (case map_of es s of None \<Rightarrow> empty_table | Some t \<Rightarrow> t)"
        show ?thesis
        proof (cases "b = s")
          case True
          have "sim (getFromAddrMapFlat (AddressMap_put P v c0) B' wc)
                    (getFromAddrMapFlat (AddressMap_put P Undefined c0) B' wc)"
            by (rule IH)
          then show ?thesis
            using True b p by (auto simp add: m B Let_def c0_def [symmetric] sim_def update_conv')
        next
          case False
          then show ?thesis
            using b p by (simp add: m B Let_def c0_def [symmetric] update_conv')
        qed
      qed
    qed
  qed
qed

lemma DefaultEntry_put_nonempty: "P \<noteq> [] \<Longrightarrow> DefaultEntry (AddressMap_put P v m) = DefaultEntry m"
  by (cases P; cases m) auto

lemma AddressMap_get_restores_address:
  "\<forall>s \<in> set A. s \<noteq> [] \<Longrightarrow> fst (snd (AddressMap_get m A wc)) = A"
  by (simp add: AddressMap_get_def Let_def addr_restored)

lemma plain_key_empty [simp]: "plain_key []"
  by (simp add: plain_key_def Object_prototype_names_def)

lemma plain_pattern_literal: "plain_pattern (map Some A) = plain_address A"
  by (induction A) (simp_all add: plain_pattern_def plain_address_def)

lemma plain_pattern_matching:
  "differs_only_by_wildcards Q A \<Longrightarrow> plain_address A \<Longrightarrow> plain_pattern Q"
  unfolding differs_only_by_wildcards_def plain_address_def plain_pattern_def
proof (induction rule: list_all2_induct)
  case Nil
  then show ?case by simp
next
  case (Cons p Q a A)
  then show ?case by (cases p) auto
qed




text \<open>
  Claim C6, as amended. For a pattern \<open>P\<close> with plain segments, \<open>put(P, absent)\<close>
  (\<open>undefined\<close> or \<open>null\<close>) keeps the table reached along \<open>P\<close> with its children and
  removes its default value; the value stored under every other pattern with plain
  segments is unchanged. For a concrete address \<open>A\<close> with plain, non-empty segments,
  \<open>get(A)\<close> after \<open>put(A, absent)\<close> returns the root's default value, or else the value
  stored under another pattern that matches \<open>A\<close>: never the deleted entry, and not the
  default of a nearer ancestor.
\<close>

theorem put_absent_deletes_exact_default:
  assumes "isUndef absent" and "plain_pattern P"
  shows "(\<forall>t. table_at P m = Some t \<longrightarrow>
            table_at P (AddressMap_put P absent m) = Some (Flat (entries t) (WildcardEntry t) Undefined))
       \<and> (\<forall>Q. plain_pattern Q \<and> map key Q \<noteq> map key P \<longrightarrow>
            stored_at Q (AddressMap_put P absent m) = stored_at Q m)
       \<and> ((\<forall>s \<in> set A. s \<noteq> []) \<and> P = map Some A \<longrightarrow>
            fst (AddressMap_get (AddressMap_put P absent m) A wc) = DefaultEntry (AddressMap_put P absent m)
            \<or> (\<exists>Q. differs_only_by_wildcards Q A \<and> plain_pattern Q \<and> map key Q \<noteq> map key P
                  \<and> fst (AddressMap_get (AddressMap_put P absent m) A wc) = stored_at Q m))"
proof (intro conjI allI impI)
  fix t assume "table_at P m = Some t"
  then show "table_at P (AddressMap_put P absent m) = Some (Flat (entries t) (WildcardEntry t) Undefined)"
    using assms(1) by (simp add: table_at_put_same)
next
  fix Q assume "plain_pattern Q \<and> map key Q \<noteq> map key P"
  then have "map key Q \<noteq> map key P" by simp
  then show "stored_at Q (AddressMap_put P absent m) = stored_at Q m"
    by (rule stored_at_put_other)
next
  assume a: "(\<forall>s \<in> set A. s \<noteq> []) \<and> P = map Some A"
  with assms(2) have plain: "plain_address A" by (simp add: plain_pattern_literal)
  let ?m = "AddressMap_put P absent m"
  let ?r = "getFromAddrMapFlat ?m A wc"
  show "fst (AddressMap_get ?m A wc) = DefaultEntry ?m
        \<or> (\<exists>Q. differs_only_by_wildcards Q A \<and> plain_pattern Q \<and> map key Q \<noteq> map key P
               \<and> fst (AddressMap_get ?m A wc) = stored_at Q m)"
  proof (cases "truthy (fst ?r)")
    case False
    then show ?thesis by (simp add: AddressMap_get_def)
  next
    case True
    with a truthy_result_is_stored [of A ?m wc] obtain Q where
      Q: "differs_only_by_wildcards Q A" "stored_at Q ?m = fst ?r" by blast
    from Q(1) plain have pQ: "plain_pattern Q" by (rule plain_pattern_matching)
    have "stored_at P ?m = Undefined" using assms(1) by (simp add: stored_at_put_same)
    with Q(2) True have neq: "map key Q \<noteq> map key P"
      using stored_at_key_cong [of Q P ?m] by auto
    then have "stored_at Q ?m = stored_at Q m" by (rule stored_at_put_other)
    with Q pQ neq True show ?thesis by (auto simp: AddressMap_get_def)
  qed
qed

text \<open>
  An instance: in a map that holds 9 at the root, 5 at \<open>["a",*]\<close>, 2 at \<open>["a","b"]\<close> and
  3 at \<open>["a","b","c"]\<close>, \<open>put(["a","b"], undefined)\<close> leaves the table at \<open>["a","b"]\<close>
  with its child \<open>"c"\<close>, the 3 stays stored at \<open>["a","b","c"]\<close>, and \<open>get(["a","b"])\<close>
  then returns the 5 stored under the other matching pattern \<open>["a",*]\<close>, not the 2.
\<close>

theorem put_absent_deletes_exact_default_witness:
  "isUndef (Undefined :: unit jsval)
   \<and> plain_pattern [Some ''a'', Some ''b'']
   \<and> plain_pattern [Some ''a'', Some ''b'', Some ''c'']
   \<and> [] \<notin> set [''a'', ''b'']
   \<and> table_at [Some ''a'', Some ''b'']
         (AddressMap_put [Some ''a'', Some ''b''] Undefined
           (AddressMap_put [Some ''a'', Some ''b'', Some ''c''] (Num 3)
             (AddressMap_put [Some ''a'', Some ''b''] (Num 2)
               (AddressMap_put [Some ''a'', None] (Num 5)
                 (AddressMap_put [] (Num 9) (empty_table :: unit AddressMapFlat))))))
       = Some (Flat [(''c'', Flat [] None (Num 3))] None Undefined)
   \<and> stored_at [Some ''a'', Some ''b'', Some ''c'']
         (AddressMap_put [Some ''a'', Some ''b''] Undefined
           (AddressMap_put [Some ''a'', Some ''b'', Some ''c''] (Num 3)
             (AddressMap_put [Some ''a'', Some ''b''] (Num 2)
               (AddressMap_put [Some ''a'', None] (Num 5)
                 (AddressMap_put [] (Num 9) (empty_table :: unit AddressMapFlat))))))
       = Num 3
   \<and> (fst (AddressMap_get
         (AddressMap_put [Some ''a'', Some ''b''] Undefined
           (AddressMap_put [Some ''a'', Some ''b'', Some ''c''] (Num 3)
             (AddressMap_put [Some ''a'', Some ''b''] (Num 2)
               (AddressMap_put [Some ''a'', None] (Num 5)
                 (AddressMap_put [] (Num 9) (empty_table :: unit AddressMapFlat))))))
         [''a'', ''b''] None)
         = DefaultEntry
             (AddressMap_put [Some ''a'', Some ''b''] Undefined
               (AddressMap_put [Some ''a'', Some ''b'', Some ''c''] (Num 3)
                 (AddressMap_put [Some ''a'', Some ''b''] (Num 2)
                   (AddressMap_put [Some ''a'', None] (Num 5)
                     (AddressMap_put [] (Num 9) (empty_table :: unit AddressMapFlat))))))
       \<or> (\<exists>Q. differs_only_by_wildcards Q [''a'', ''b''] \<and> plain_pattern Q
              \<and> map key Q \<noteq> map key [Some ''a'', Some ''b'']
              \<and> fst (AddressMap_get
                  (AddressMap_put [Some ''a'', Some ''b''] Undefined
                    (AddressMap_put [Some ''a'', Some ''b'', Some ''c''] (Num 3)
                      (AddressMap_put [Some ''a'', Some ''b''] (Num 2)
                        (AddressMap_put [Some ''a'', None] (Num 5)
                          (AddressMap_put [] (Num 9) (empty_table :: unit AddressMapFlat))))))
                  [''a'', ''b''] None)
                = stored_at Q
                    (AddressMap_put [Some ''a'', Some ''b'', Some ''c''] (Num 3)
                      (AddressMap_put [Some ''a'', Some ''b''] (Num 2)
                        (AddressMap_put [Some ''a'', None] (Num 5)
                          (AddressMap_put [] (Num 9) (empty_table :: unit AddressMapFlat)))))))
   \<and> fst (AddressMap_get
         (AddressMap_put [Some ''a'', Some ''b''] Undefined
           (AddressMap_put [Some ''a'', Some ''b'', Some ''c''] (Num 3)
             (AddressMap_put [Some ''a'', Some ''b''] (Num 2)
               (AddressMap_put [Some ''a'', None] (Num 5)
                 (AddressMap_put [] (Num 9) (empty_table :: unit AddressMapFlat))))))
         [''a'', ''b''] None) = Num 5
   \<and> stored_at [Some ''a'', None]
         (AddressMap_put [Some ''a'', Some ''b'', Some ''c''] (Num 3)
           (AddressMap_put [Some ''a'', Some ''b''] (Num 2)
             (AddressMap_put [Some ''a'', None] (Num 5)
               (AddressMap_put [] (Num 9) (empty_table :: unit AddressMapFlat))))) = Num 5"
proof -
  let ?P = "[Some ''a'', Some ''b'']"
  let ?m = "AddressMap_put [Some ''a'', Some ''b'', Some ''c''] (Num 3)
             (AddressMap_put [Some ''a'', Some ''b''] (Num 2)
               (AddressMap_put [Some ''a'', None] (Num 5)
                 (AddressMap_put [] (Num 9) (empty_table :: unit AddressMapFlat))))"
  have h: "isUndef (Undefined :: unit jsval)" by (simp add: isUndef_def)
  have pP: "plain_pattern ?P"
    by (simp add: plain_pattern_def plain_key_def Object_prototype_names_def)
  have pQ: "plain_pattern [Some ''a'', Some ''b'', Some ''c'']"
    by (simp add: plain_pattern_def plain_key_def Object_prototype_names_def)
  have ne: "[] \<notin> set [''a'', ''b'']" by simp
  note inst = put_absent_deletes_exact_default [OF h pP, of ?m "[''a'', ''b'']" None]
  have t: "table_at ?P ?m = Some (Flat [(''c'', Flat [] None (Num 3))] None (Num 2))"
    by (simp add: empty_table_def isUndef_def)
  from inst have "\<forall>t. table_at ?P ?m = Some t \<longrightarrow>
            table_at ?P (AddressMap_put ?P Undefined ?m)
              = Some (Flat (entries t) (WildcardEntry t) Undefined)"
    by (rule conjunct1)
  with t have "table_at ?P (AddressMap_put ?P Undefined ?m)
      = Some (Flat (entries (Flat [(''c'', Flat [] None (Num 3))] None (Num 2 :: unit jsval)))
               (WildcardEntry (Flat [(''c'', Flat [] None (Num 3))] None (Num 2 :: unit jsval))) Undefined)"
    by blast
  then have c1: "table_at ?P (AddressMap_put ?P Undefined ?m)
      = Some (Flat [(''c'', Flat [] None (Num 3))] None Undefined)"
    by simp
  have k: "map key [Some ''a'', Some ''b'', Some ''c''] \<noteq> map key ?P"
    by simp
  have s: "stored_at [Some ''a'', Some ''b'', Some ''c''] ?m = Num 3"
    by (simp add: empty_table_def isUndef_def stored_at_Cons)
  from inst pQ k
  have "stored_at [Some ''a'', Some ''b'', Some ''c''] (AddressMap_put ?P Undefined ?m)
      = stored_at [Some ''a'', Some ''b'', Some ''c''] ?m"
    by blast
  with s have c2: "stored_at [Some ''a'', Some ''b'', Some ''c'']
          (AddressMap_put ?P Undefined ?m) = Num 3"
    by simp
  have lit: "(\<forall>s \<in> set [''a'', ''b'']. s \<noteq> []) \<and> ?P = map Some [''a'', ''b'']" by simp
  from inst have "(\<forall>s \<in> set [''a'', ''b'']. s \<noteq> []) \<and> ?P = map Some [''a'', ''b''] \<longrightarrow>
      fst (AddressMap_get (AddressMap_put ?P Undefined ?m) [''a'', ''b''] None)
        = DefaultEntry (AddressMap_put ?P Undefined ?m)
      \<or> (\<exists>Q. differs_only_by_wildcards Q [''a'', ''b''] \<and> plain_pattern Q
             \<and> map key Q \<noteq> map key ?P
             \<and> fst (AddressMap_get (AddressMap_put ?P Undefined ?m) [''a'', ''b''] None)
                 = stored_at Q ?m)"
    by (elim conjE)
  with lit have c3: "fst (AddressMap_get (AddressMap_put ?P Undefined ?m) [''a'', ''b''] None)
        = DefaultEntry (AddressMap_put ?P Undefined ?m)
      \<or> (\<exists>Q. differs_only_by_wildcards Q [''a'', ''b''] \<and> plain_pattern Q
             \<and> map key Q \<noteq> map key ?P
             \<and> fst (AddressMap_get (AddressMap_put ?P Undefined ?m) [''a'', ''b''] None)
                 = stored_at Q ?m)"
    by (rule rev_mp)
  have g: "fst (AddressMap_get (AddressMap_put ?P Undefined ?m) [''a'', ''b''] None) = Num 5"
    by (simp add: AddressMap_get_def empty_table_def isUndef_def)
  have w: "stored_at [Some ''a'', None] ?m = Num 5"
    by (simp add: empty_table_def isUndef_def stored_at_Cons)
  from h pP pQ ne c1 c2 c3 g w show ?thesis by (intro conjI)
qed

text \<open>
  Claim C6 as stated fails: with 1 stored at \<open>["a"]\<close>, after \<open>put(["a","b"], 2)\<close> and
  \<open>put(["a","b"], undefined)\<close> the lookup of \<open>["a","b"]\<close> gives \<open>undefined\<close> (the
  root's default), not the 1 of the nearest ancestor.
\<close>

theorem put_absent_ancestor_counterexample:
  "stored_at [Some ''a''] (AddressMap_put [Some ''a'', Some ''b''] Undefined
       (AddressMap_put [Some ''a'', Some ''b''] (Num 2)
         (AddressMap_put [Some ''a''] (Num 1) (empty_table :: unit AddressMapFlat)))) = Num 1
   \<and> fst (AddressMap_get (AddressMap_put [Some ''a'', Some ''b''] Undefined
       (AddressMap_put [Some ''a'', Some ''b''] (Num 2)
         (AddressMap_put [Some ''a''] (Num 1) (empty_table :: unit AddressMapFlat))))
       [''a'', ''b''] None) = Undefined"
  by (simp add: AddressMap_get_def empty_table_def isUndef_def stored_at_Cons)

text \<open>
  In a map that holds a single pattern, the lookup of a matching address appends to the
  sink the segments that the pattern's wildcards match, in order.
\<close>

lemma single_pattern_flat:
  "\<forall>s \<in> set A. s \<noteq> [] \<Longrightarrow> truthy v \<Longrightarrow> differs_only_by_wildcards P A \<Longrightarrow>
     getFromAddrMapFlat (AddressMap_put P v empty_table) A (Some wc)
       = (v, A, Some (wc @ captures P A))"
proof (induction P arbitrary: A wc)
  case Nil
  then have "A = []" by (simp add: differs_only_by_wildcards_def)
  moreover from Nil have "\<not> isUndef v" by (cases v) (auto simp: isUndef_def)
  ultimately show ?case by (simp add: empty_table_def)
next
  case (Cons p P)
  from Cons.prems(3) obtain a A' where A: "A = a # A'"
    and pa: "is_wildcard p \<or> p = Some a" and rest: "differs_only_by_wildcards P A'"
    by (cases A) (auto simp: differs_only_by_wildcards_def)
  from Cons.prems(1) A have a: "a \<noteq> []" and neA: "\<forall>s \<in> set A'. s \<noteq> []" by auto
  note IH = Cons.IH [OF neA Cons.prems(2) rest]
  show ?case
  proof (cases "is_wildcard p")
    case True
    then show ?thesis using a IH [of "wc @ [a]"] Cons.prems(2)
      by (simp add: A empty_table_def Let_def)
  next
    case False
    with pa have "p = Some a" by simp
    then show ?thesis using False a IH [of wc] Cons.prems(2)
      by (simp add: A empty_table_def Let_def)
  qed
qed

lemma single_pattern_captures:
  "\<forall>s \<in> set A. s \<noteq> [] \<Longrightarrow> truthy v \<Longrightarrow> differs_only_by_wildcards P A \<Longrightarrow>
     AddressMap_get (AddressMap_put P v empty_table) A (Some wc) = (v, A, Some (wc @ captures P A))"
  by (simp add: AddressMap_get_def single_pattern_flat)

text \<open>
  Claim C7: the code at the failing input. With \<open>["a",*,"x"]\<close> and \<open>[*,"b","c"]\<close>
  stored, the lookup of \<open>["a","b","c"]\<close> first takes the wildcard below \<open>"a"\<close> for
  \<open>"b"\<close>, finds nothing there, and then resolves through the root's wildcard. The
  sink holds \<open>["b","a"]\<close>, while the pattern that matched consumed only \<open>"a"\<close>
  through a wildcard.
\<close>

theorem sink_keeps_abandoned_wildcards:
  "AddressMap_get (AddressMap_put [None, Some ''b'', Some ''c''] (Num 2)
       (AddressMap_put [Some ''a'', None, Some ''x''] (Num 1) (empty_table :: unit AddressMapFlat)))
     [''a'', ''b'', ''c''] (Some []) = (Num 2, [''a'', ''b'', ''c''], Some [''b'', ''a''])
   \<and> stored_at [None, Some ''b'', Some ''c'']
       (AddressMap_put [None, Some ''b'', Some ''c''] (Num 2)
         (AddressMap_put [Some ''a'', None, Some ''x''] (Num 1) (empty_table :: unit AddressMapFlat)))
     = Num 2
   \<and> captures [None, Some ''b'', Some ''c''] [''a'', ''b'', ''c''] = [''a'']"
  by (simp add: AddressMap_get_def empty_table_def isUndef_def stored_at_Cons)

text \<open>
  Claim C9: the code at the failing input. The segment \<open>""\<close> is shifted off and the
  early return skips the \<open>unshift\<close>: after \<open>get(["a","","b"])\<close> the caller's array is
  \<open>["a","b"]\<close>.
\<close>

theorem get_shortens_address:
  "fst (snd (AddressMap_get (AddressMap_put [Some ''a''] (Num 1) (empty_table :: unit AddressMapFlat))
        [''a'', '''', ''b''] None)) = [''a'', ''b'']"
  by (simp add: AddressMap_get_def empty_table_def isUndef_def)

text \<open>
  Claim C10, as amended. For a non-empty pattern \<open>P\<close> with plain segments and a falsy
  value \<open>v\<close>, every lookup of an address with plain segments in the map after
  \<open>put(P, v)\<close> gives what it gives after \<open>put(P, undefined)\<close>: the same value, address
  and sink. In particular a \<open>DENY\<close> stored at \<open>P\<close> in the map
  of a \<open>LegacyAccessController\<close> answers every query as if the entry were absent.
\<close>

theorem falsy_entry_is_absent:
  assumes "P \<noteq> []" and "\<not> truthy v" and "plain_pattern P" and "plain_address B"
  shows "AddressMap_get (AddressMap_put P v m) B wc = AddressMap_get (AddressMap_put P Undefined m) B wc
       \<and> (v = DENY \<longrightarrow>
            LegacyAccessController_can (AddressMap_put P DENY m') B os s
              = LegacyAccessController_can (AddressMap_put P Undefined m') B os s)"
proof -
  have get_eq: "AddressMap_get (AddressMap_put P u t) B wc' = AddressMap_get (AddressMap_put P Undefined t) B wc'"
    if "\<not> truthy u" for u :: "'c jsval" and t wc'
    using getFlat_falsy_put [OF that, of P t B wc'] assms(1)
    by (auto simp: AddressMap_get_def Let_def sim_def DefaultEntry_put_nonempty prod_eq_iff)
  from assms(2) have "AddressMap_get (AddressMap_put P v m) B wc = AddressMap_get (AddressMap_put P Undefined m) B wc"
    by (rule get_eq)
  moreover have "LegacyAccessController_can (AddressMap_put P DENY m') B os s
              = LegacyAccessController_can (AddressMap_put P Undefined m') B os s"
    using get_eq [of DENY m' None] by (simp add: LegacyAccessController_can_def)
  ultimately show ?thesis by simp
qed

text \<open>An instance: a \<open>DENY\<close> stored at \<open>["net","x"]\<close> below an \<open>ALLOW\<close> at \<open>["net",*]\<close>.\<close>

theorem falsy_entry_is_absent_witness:
  "[Some ''net'', Some ''x''] \<noteq> [] \<and> \<not> truthy (DENY :: unit jsval)
   \<and> plain_pattern [Some ''net'', Some ''x''] \<and> plain_address [''net'', ''x'']
   \<and> AddressMap_get (AddressMap_put [Some ''net'', Some ''x''] DENY
         (AddressMap_put [Some ''net'', None] ALLOW (empty_table :: unit AddressMapFlat)))
       [''net'', ''x''] None = (ALLOW, [''net'', ''x''], None)
   \<and> AddressMap_get (AddressMap_put [Some ''net'', Some ''x''] Undefined
         (AddressMap_put [Some ''net'', None] ALLOW (empty_table :: unit AddressMapFlat)))
       [''net'', ''x''] None = (ALLOW, [''net'', ''x''], None)"
proof -
  have h1: "[Some ''net'', Some ''x''] \<noteq> []" by simp
  have h2: "\<not> truthy (DENY :: unit jsval)" by simp
  have h3: "plain_pattern [Some ''net'', Some ''x'']"
    by (simp add: plain_pattern_def plain_key_def Object_prototype_names_def)
  have h4: "plain_address [''net'', ''x'']"
    by (simp add: plain_address_def plain_key_def Object_prototype_names_def)
  have e: "AddressMap_get (AddressMap_put [Some ''net'', Some ''x''] Undefined
         (AddressMap_put [Some ''net'', None] ALLOW (empty_table :: unit AddressMapFlat)))
       [''net'', ''x''] None = (ALLOW, [''net'', ''x''], None)"
    by (simp add: AddressMap_get_def empty_table_def isUndef_def)
  from falsy_entry_is_absent [OF h1 h2 h3 h4, of "AddressMap_put [Some ''net'', None] ALLOW empty_table" None]
  have "AddressMap_get (AddressMap_put [Some ''net'', Some ''x''] DENY
         (AddressMap_put [Some ''net'', None] ALLOW (empty_table :: unit AddressMapFlat)))
       [''net'', ''x''] None
     = AddressMap_get (AddressMap_put [Some ''net'', Some ''x''] Undefined
         (AddressMap_put [Some ''net'', None] ALLOW (empty_table :: unit AddressMapFlat)))
       [''net'', ''x''] None"
    by (rule conjunct1)
  with e h1 h2 h3 h4 show ?thesis by simp
qed

text \<open>
  Claim C10 as stated fails at the root: the value stored at \<open>[]\<close> is the root's default
  value, which \<open>get\<close> falls back to. A \<open>DENY\<close> stored there is returned, an absent
  entry gives \<open>undefined\<close>.
\<close>

theorem falsy_root_entry_counterexample:
  "AddressMap_get (AddressMap_put [] DENY (empty_table :: unit AddressMapFlat)) [''net'', ''x''] None
     = (DENY, [''net'', ''x''], None)
   \<and> AddressMap_get (AddressMap_put [] Undefined (empty_table :: unit AddressMapFlat)) [''net'', ''x''] None
     = (Undefined, [''net'', ''x''], None)"
  by (simp add: AddressMap_get_def empty_table_def isUndef_def)

section \<open>Access control\<close>

lemma some_can_undecided_prefix:
  "all_undecided pre addr os s = Some s1 \<Longrightarrow> \<not> isDefined val \<Longrightarrow>
     \<exists>val'. \<not> isDefined val' \<and> some_can (pre @ rest) addr os val s = some_can rest addr os val' s1"
proof (induction pre arbitrary: val s)
  case Nil
  then show ?case by auto
next
  case (Cons c pre)
  obtain v s' where c: "c addr os s = (v, s')" by (cases "c addr os s")
  with Cons.prems(1) have v: "\<not> isDefined v" and u: "all_undecided pre addr os s' = Some s1"
    by (auto split: if_splits)
  from Cons.IH [OF u v] c v show ?case by simp
qed

lemma chain_cases:
  "all_undecided chain addr os s \<noteq> None
   \<or> (\<exists>pre ctrl post s1 val s2. chain = pre @ ctrl # post \<and> all_undecided pre addr os s = Some s1
         \<and> ctrl addr os s1 = (val, s2) \<and> isDefined val)"
proof (induction chain arbitrary: s)
  case Nil
  then show ?case by simp
next
  case (Cons c chain)
  obtain v s' where c: "c addr os s = (v, s')" by (cases "c addr os s")
  show ?case
  proof (cases "isDefined v")
    case True
    with c have "c # chain = [] @ c # chain \<and> all_undecided [] addr os s = Some s
         \<and> c addr os s = (v, s') \<and> isDefined v" by simp
    then show ?thesis by blast
  next
    case False
    from Cons.IH [of s'] show ?thesis
    proof
      assume "all_undecided chain addr os s' \<noteq> None"
      with c False show ?thesis by simp
    next
      assume "\<exists>pre ctrl post s1 val s2. chain = pre @ ctrl # post \<and> all_undecided pre addr os s' = Some s1
         \<and> ctrl addr os s1 = (val, s2) \<and> isDefined val"
      then obtain pre ctrl post s1 val s2 where
        "chain = pre @ ctrl # post" "all_undecided pre addr os s' = Some s1"
        "ctrl addr os s1 = (val, s2)" "isDefined val" by blast
      with c False have "c # chain = (c # pre) @ ctrl # post \<and> all_undecided (c # pre) addr os s = Some s1
         \<and> ctrl addr os s1 = (val, s2) \<and> isDefined val" by simp
      then show ?thesis by blast
    qed
  qed
qed

text \<open>
  Claim C3. A chained controller calls its sub-controllers in list order. If the
  controllers before \<open>ctrl\<close> all answer UNDECIDED (\<open>undefined\<close> or \<open>null\<close>) and
  \<open>ctrl\<close> answers a verdict, the result is that verdict and the state is the one
  \<open>ctrl\<close> leaves: whatever the controllers after it are, they are not called. If all
  answer UNDECIDED, the result is the configured default, with the state the last one
  leaves. By \<open>chain_cases\<close> every chain is in one of the two cases.
\<close>

theorem chain_stops_at_first_verdict:
  "(all_undecided pre addr os s = Some s1 \<and> ctrl addr os s1 = (val, s2) \<and> isDefined val \<longrightarrow>
      ChainedAccessController_can (pre @ ctrl # post) default_ap' addr os s = (val, s2))
   \<and> (all_undecided chain addr os s = Some s' \<longrightarrow>
      ChainedAccessController_can chain default_ap' addr os s = (default_ap', s'))"
proof (intro conjI impI)
  assume a: "all_undecided pre addr os s = Some s1 \<and> ctrl addr os s1 = (val, s2) \<and> isDefined val"
  then obtain val' where "some_can (pre @ ctrl # post) addr os Undefined s
      = some_can (ctrl # post) addr os val' s1"
    using some_can_undecided_prefix [of pre addr os s s1 Undefined "ctrl # post"] by auto
  with a show "ChainedAccessController_can (pre @ ctrl # post) default_ap' addr os s = (val, s2)"
    by (simp add: ChainedAccessController_can_def)
next
  assume a: "all_undecided chain addr os s = Some s'"
  then obtain val' where "\<not> isDefined val'" "some_can (chain @ []) addr os Undefined s
      = some_can [] addr os val' s'"
    using some_can_undecided_prefix [of chain addr os s s' Undefined "[]"] by auto
  then show "ChainedAccessController_can chain default_ap' addr os s = (default_ap', s')"
    by (simp add: ChainedAccessController_can_def)
qed

text \<open>
  The test of the repository: three controllers logging 1, 2, 3, the second answers
  \<open>DENY\<close>; the log ends as \<open>[1, 2]\<close>. With no verdict the default comes back.
\<close>

theorem chain_stops_at_first_verdict_witness:
  "all_undecided [logging 1 Undefined] [''net'', ''kb1rd'', ''test'']
      \<lparr>opts_args = [], opts_wc = [], opts_func = Undefined\<rparr> [] = Some [1]
   \<and> isDefined (DENY :: unit jsval)
   \<and> ChainedAccessController_can [logging 1 Undefined, logging 2 DENY, logging 3 Undefined] ALLOW
        [''net'', ''kb1rd'', ''test''] \<lparr>opts_args = [], opts_wc = [], opts_func = Undefined\<rparr> []
      = (DENY, [1, 2])
   \<and> ChainedAccessController_can [logging 1 Undefined, logging 3 NONE] ALLOW
        [''net'', ''kb1rd'', ''test''] \<lparr>opts_args = [], opts_wc = [], opts_func = Undefined\<rparr> []
      = (ALLOW, [1, 3])"
proof -
  let ?addr = "[''net'', ''kb1rd'', ''test'']"
  let ?os = "\<lparr>opts_args = [], opts_wc = [], opts_func = Undefined\<rparr>"
  have u1: "all_undecided [logging 1 Undefined] ?addr ?os [] = Some [1]"
    by (simp add: logging_def)
  have c2: "logging 2 DENY ?addr ?os [1] = (DENY, [1, 2])" by (simp add: logging_def)
  have d: "isDefined (DENY :: unit jsval)" by simp
  have u2: "all_undecided [logging 1 Undefined, logging 3 NONE] ?addr ?os [] = Some [1, 3]"
    by (simp add: logging_def)
  from chain_stops_at_first_verdict [of "[logging 1 Undefined]" ?addr ?os "[]" "[1]" "logging 2 DENY"
      DENY "[1, 2]" "[logging 3 Undefined]" ALLOW "[logging 1 Undefined, logging 3 NONE]" "[1, 3]"]
    u1 c2 d u2
  show ?thesis by simp
qed

section \<open>Correlation addresses\<close>

lemma digit_inj: "a < 10 \<Longrightarrow> b < 10 \<Longrightarrow> digit a = digit b \<Longrightarrow> a = b"
proof -
  assume a: "a < 10" and b: "b < 10" and e: "digit a = digit b"
  have d: "distinct ''0123456789''" by simp
  have l: "length ''0123456789'' = 10" by simp
  from e have "''0123456789'' ! a = ''0123456789'' ! b" by (simp add: digit_def)
  with d a b l show "a = b" by (simp only: nth_eq_iff_index_eq)
qed

lemma string_of_nat_nonempty: "string_of_nat n \<noteq> []"
  by (subst string_of_nat.simps) simp

lemma string_of_nat_inj: "string_of_nat n = string_of_nat m \<Longrightarrow> n = m"
proof (induction n arbitrary: m rule: string_of_nat.induct)
  case (1 n)
  show ?case
  proof (cases "n < 10")
    case n: True
    show ?thesis
    proof (cases "m < 10")
      case True
      with n "1.prems" show ?thesis
        by (subst (asm) string_of_nat.simps, subst (asm) (2) string_of_nat.simps) (auto dest: digit_inj)
    next
      case False
      with n "1.prems" string_of_nat_nonempty [of "m div 10"] show ?thesis
        by (subst (asm) string_of_nat.simps, subst (asm) (2) string_of_nat.simps) (auto simp: Cons_eq_append_conv)
    qed
  next
    case n: False
    show ?thesis
    proof (cases "m < 10")
      case True
      with n "1.prems" string_of_nat_nonempty [of "n div 10"] show ?thesis
        by (subst (asm) string_of_nat.simps, subst (asm) (2) string_of_nat.simps) (auto simp: append_eq_Cons_conv)
    next
      case False
      with n "1.prems" have e: "string_of_nat (n div 10) = string_of_nat (m div 10)"
        and d: "digit (n mod 10) = digit (m mod 10)"
        by (subst (asm) string_of_nat.simps, subst (asm) (2) string_of_nat.simps, simp)+
      from "1.IH" [OF n e] have "n div 10 = m div 10" .
      moreover from d have "n mod 10 = m mod 10"
        using digit_inj [of "n mod 10" "m mod 10"] by simp
      ultimately show ?thesis by (metis div_mult_mod_eq)
    qed
  qed
qed

lemma seq_addr_inj: "seq_addr n = seq_addr m \<Longrightarrow> n = m"
  by (simp add: seq_addr_def string_of_nat_inj)

lemma allocate_addresses:
  "return_seq_id r \<le> 2 ^ 53 \<Longrightarrow>
     fst (allocate N r) = map (\<lambda>i. seq_addr (min (return_seq_id r + i) (2 ^ 53))) [0..<N]"
proof -
  define B :: nat where "B = 2 ^ 53"
  have inc: "js_increment n = (if n < B then n + 1 else n)" for n
    by (simp add: js_increment_def B_def)
  have "return_seq_id r \<le> B \<Longrightarrow>
     fst (allocate N r) = map (\<lambda>i. seq_addr (min (return_seq_id r + i) B)) [0..<N]"
  proof (induction N arbitrary: r)
    case 0
    then show ?case by simp
  next
    case (Suc N)
    let ?r' = "r\<lparr>return_seq_id := js_increment (return_seq_id r)\<rparr>"
    have le: "return_seq_id ?r' \<le> B" using Suc.prems by (simp add: inc)
    have step: "min (return_seq_id ?r' + i) B = min (return_seq_id r + Suc i) B" for i
      using Suc.prems by (simp add: inc)
    have "fst (allocate (Suc N) r) = seq_addr (return_seq_id r) # fst (allocate N ?r')"
      by (simp add: nextSeqAddr_def split: prod.splits)
    also have "\<dots> = seq_addr (min (return_seq_id r + 0) B)
                    # map (\<lambda>i. seq_addr (min (return_seq_id ?r' + i) B)) [0..<N]"
      using Suc.IH [OF le] Suc.prems by (simp only: min_absorb1 add_0_right)
    also have "\<dots> = seq_addr (min (return_seq_id r + 0) B)
                    # map (\<lambda>i. seq_addr (min (return_seq_id r + Suc i) B)) [0..<N]"
      by (simp only: step)
    also have "\<dots> = map (\<lambda>i. seq_addr (min (return_seq_id r + i) B)) (0 # map Suc [0..<N])"
      by (simp add: comp_def)
    also have "0 # map Suc [0..<N] = [0..<Suc N]"
      by (simp add: upt_conv_Cons map_Suc_upt del: upt_Suc)
    finally show ?case .
  qed
  then show "return_seq_id r \<le> 2 ^ 53 \<Longrightarrow>
     fst (allocate N r) = map (\<lambda>i. seq_addr (min (return_seq_id r + i) (2 ^ 53))) [0..<N]"
    by (simp only: B_def)
qed

text \<open>
  Claim C8, as amended. On a registry whose counter is 0 (a new one: the counter is
  a field of the instance), \<open>N \<le> 2^53 + 1\<close> successive calls of \<open>nextSeqAddr\<close> return
  \<open>["_","ret","id0"]\<close> to \<open>["_","ret","id(N-1)"]\<close> in order, and these are pairwise
  different.
\<close>

theorem nextSeqAddr_sequence:
  assumes "return_seq_id r = 0" and "N \<le> 2 ^ 53 + 1"
  shows "fst (allocate N r) = map seq_addr [0..<N] \<and> distinct (fst (allocate N r))"
proof -
  have eq: "fst (allocate N r) = map seq_addr [0..<N]"
    using allocate_addresses [of r N] assms by (auto simp: min_def)
  have "inj seq_addr" by (rule injI) (rule seq_addr_inj)
  then have "distinct (map seq_addr [0..<N])" by (simp add: distinct_map inj_on_def)
  with eq show ?thesis by simp
qed

theorem nextSeqAddr_sequence_witness:
  "return_seq_id (new_RpcHandlerRegistry :: unit RpcHandlerRegistry) = 0 \<and> (3 :: nat) \<le> 2 ^ 53 + 1
   \<and> fst (allocate 3 (new_RpcHandlerRegistry :: unit RpcHandlerRegistry))
       = [[''_'', ''ret'', ''id0''], [''_'', ''ret'', ''id1''], [''_'', ''ret'', ''id2'']]
   \<and> distinct (fst (allocate 3 (new_RpcHandlerRegistry :: unit RpcHandlerRegistry)))"
proof -
  have h1: "return_seq_id (new_RpcHandlerRegistry :: unit RpcHandlerRegistry) = 0"
    by (simp add: new_RpcHandlerRegistry_def)
  have h2: "(3 :: nat) \<le> 2 ^ 53 + 1" by simp
  have e: "map seq_addr [0..<3]
       = [[''_'', ''ret'', ''id0''], [''_'', ''ret'', ''id1''], [''_'', ''ret'', ''id2'']]"
    by (simp add: numeral_3_eq_3 seq_addr_def digit_def)
  from nextSeqAddr_sequence [OF h1 h2] e h1 h2 show ?thesis by simp
qed

text \<open>
  Claim C8 as stated ("for every N") fails beyond the exact integers of a JavaScript
  number: the calls number \<open>2^53 + 1\<close> and \<open>2^53 + 2\<close> on a new registry return the
  same address.
\<close>

theorem nextSeqAddr_repeats_counterexample:
  "\<not> distinct (fst (allocate (2 ^ 53 + 2) (new_RpcHandlerRegistry :: unit RpcHandlerRegistry)))"
proof -
  let ?N = "2 ^ 53 + 2 :: nat"
  let ?as = "fst (allocate ?N (new_RpcHandlerRegistry :: unit RpcHandlerRegistry))"
  have eq: "?as = map (\<lambda>i. seq_addr (min i (2 ^ 53))) [0..<?N]"
    using allocate_addresses [of "new_RpcHandlerRegistry :: unit RpcHandlerRegistry" ?N]
    by (simp add: new_RpcHandlerRegistry_def)
  have len: "length ?as = ?N" by (simp only: eq length_map length_upt diff_zero)
  have a: "?as ! (2 ^ 53) = seq_addr (2 ^ 53)" by (simp only: eq) (simp del: upt_Suc)
  have b: "?as ! (2 ^ 53 + 1) = seq_addr (2 ^ 53)" by (simp only: eq) (simp del: upt_Suc)
  show ?thesis
  proof
    assume "distinct ?as"
    with len have "?as ! (2 ^ 53) \<noteq> ?as ! (2 ^ 53 + 1)"
      by (simp add: nth_eq_iff_index_eq)
    with a b show False by simp
  qed
qed

section \<open>Serializer\<close>

lemma serialize_forgets_stacks:
  "rpcSerialize (forget_stacks d) xfer = rpcSerialize (d :: 'f jsval) xfer"
  "serialize_all (map forget_stacks es) xfer = serialize_all (es :: 'f jsval list) xfer"
  "serialize_keys (map (\<lambda>(k, v). (k, forget_stacks v)) kvs) xfer
     = serialize_keys (kvs :: (string \<times> 'f jsval) list) xfer"
  by (induction d xfer and es xfer and kvs xfer rule: rpcSerialize_serialize_all_serialize_keys.induct)
     (simp_all split: prod.splits sum.splits)

text \<open>
  Claim C5, as amended. An \<open>Error\<close> that carries no serialization hook is serialized
  to the six fields, with the fixed string in place of its stack and the other fields as
  they are (an absent one as \<open>undefined\<close>); the transfer list is unchanged. Two such
  errors that differ only in their stack have the same serialization, and so have two
  values that differ only in the stacks of such errors inside nested arrays and objects.
\<close>

theorem error_stack_redacted:
  "rpcSerialize (Error e) xfer
     = (Inr (SObject [(''name'', name e), (''message'', message e),
                      (''stack'', SStr ''Stack trace redacted for security reasons''),
                      (''columnNumber'', columnNumber e), (''lineNumber'', lineNumber e),
                      (''fileName'', fileName e)]), xfer)
   \<and> rpcSerialize (Error (e\<lparr>stack := s1\<rparr>)) xfer = rpcSerialize (Error (e\<lparr>stack := s2\<rparr>)) xfer
   \<and> rpcSerialize (forget_stacks d) xfer = rpcSerialize d xfer"
  by (simp add: redacted_def serialize_forgets_stacks)

text \<open>
  Claim C5 as stated ("for every Error value") fails for an \<open>Error\<close> that carries a
  \<open>toRpcSerialized\<close> hook: \<open>rpcSerialize\<close> returns what the hook returns, here the
  stack.
\<close>

theorem error_hook_counterexample:
  "rpcSerialize
     (Hooked (Error \<lparr>name = SStr ''Error'', message = SStr ''boom'', stack = SStr ''Error: boom at secret.js:1'',
                     columnNumber = SUndefined, lineNumber = SUndefined, fileName = SUndefined\<rparr>)
             (\<lambda>xfer. (SObject [(''stack'', SStr ''Error: boom at secret.js:1'')], xfer)) :: unit jsval) []
     = (Inr (SObject [(''stack'', SStr ''Error: boom at secret.js:1'')]), [])"
  by simp

section \<open>Channel: states\<close>

lemma send_state [simp]: "state (snd (send ch a as r t)) = state ch"
  by (simp add: send_def split: prod.splits sum.splits)

lemma send_state_eq: "send ch a as r t = (x, c) \<Longrightarrow> state c = state ch"
  using send_state [of ch a as r t] by simp

lemma send_sent_nil [simp]:
  "send ch a [] r t = (None, ch\<lparr>sent := sent ch @ [(\<lparr>to = a, args = [], return_addr = r, return_type = Some t\<rparr>, [])]\<rparr>)"
  by (simp add: send_def)

lemma resetTimeout_state [simp]: "state (resetTimeout ch) = state ch"
  by (simp add: resetTimeout_def Let_def)

lemma settle_state [simp]: "state (settle k out ch) = state ch"
  by (simp add: settle_def split: option.splits)

lemma onChannelClose_state [simp]: "state (onChannelClose ls ch) = state ch"
  by (induction ls arbitrary: ch) auto

lemma stateChange_state [simp]: "state (stateChange ch st) = st"
  by (cases st) (simp_all add: stateChange_def Let_def)

lemma start_continue_rank: "rank (state ch) \<le> rank (state (start_continue ch))"
  by (simp add: start_continue_def)

lemma start_continue_CLOSED [simp]: "state ch = CLOSED \<Longrightarrow> start_continue ch = ch"
  by (simp add: start_continue_def)

lemma resume_waiters_rank: "rank (state ch) \<le> rank (state (resume_waiters ch))"
  using start_continue_rank [of "ch\<lparr>start_waiters := 0\<rparr>"] by (simp add: resume_waiters_def)

lemma resume_waiters_CLOSED: "state ch = CLOSED \<Longrightarrow> state (resume_waiters ch) = CLOSED"
  by (simp add: resume_waiters_def)

lemma start_rank: "rank (state ch) \<le> rank (state (start ch))"
  using start_continue_rank [of ch] by (simp add: start_def)

lemma close_state [simp]: "state (close ch b) = CLOSED"
  by (simp add: close_def Let_def resume_waiters_CLOSED)

lemma rank_le [simp]: "rank st \<le> 2"
  by (cases st) simp_all

lemma close_rank: "rank (state ch) \<le> rank (state (close ch b))"
  by simp

lemma invoke_rank: "rank (state ch) \<le> rank (state (snd (invoke h ch wc as)))"
proof (induction h)
  case CloseHandler
  then show ?case by (simp add: close_rank)
next
  case (ReturnHandler owner k)
  then show ?case by (simp add: Let_def)
qed simp_all

lemma maybeReturn_state [simp]: "state (snd (maybeReturn ch val data error)) = state ch"
  by (auto simp: maybeReturn_def split: option.splits return_type.splits rpc_data.splits prod.splits
           dest!: send_state_eq)

lemma receive_rank: "rank (state ch) \<le> rank (state (snd (receive ch val)))"
proof (cases "state ch = CLOSED")
  case True
  then show ?thesis by (simp add: receive_def)
next
  case False
  obtain func to' wc where ff: "find_func (resetTimeout ch) val = (func, to', wc)"
    by (cases "find_func (resetTimeout ch) val")
  obtain policy s' where sp: "security_policy (resetTimeout ch) val = (policy, s')"
    by (cases "security_policy (resetTimeout ch) val")
  let ?ch1 = "(resetTimeout ch)\<lparr>ac_state := s'\<rparr>"
  have inv: "rank (state ch) \<le> rank (state (snd (invoke h ?ch1 wc (args val))))" for h
    using invoke_rank [of ?ch1 h wc "args val"] by simp
  have mr: "rank (state ch) \<le> rank (state (snd (maybeReturn c val d e)))"
    if "rank (state ch) \<le> rank (state c)" for c d e
    using that by simp
  have body: "rank (state ch) \<le> rank (state (snd
          (if isDefined policy \<and> policy = DENY
                 then maybeReturn ?ch1 val (Plain Undefined)
                        (new_error ''AccessDeniedError'' ''Access denied'')
                 else if \<not> truthy func
                 then maybeReturn ?ch1 val (Plain Undefined)
                        (new_error ''TypeError'' ''Function at address is undefined'')
                 else (case func of
                         Function h \<Rightarrow>
                           (case invoke h ?ch1 wc (args val) of
                              (Throws e, ch2) \<Rightarrow> maybeReturn ch2 val (Plain Undefined) e
                            | (Returns data, ch2) \<Rightarrow> maybeReturn ch2 val data Undefined)
                       | _ \<Rightarrow> maybeReturn ?ch1 val (Plain Undefined)
                                (new_error ''TypeError'' ''func is not a function'')))))"
    (is "_ \<le> rank (state (snd ?r))")
  proof (cases func)
    case (Function h)
    obtain res ch2 where i: "invoke h ?ch1 wc (args val) = (res, ch2)"
      by (cases "invoke h ?ch1 wc (args val)")
    with inv [of h] have "rank (state ch) \<le> rank (state ch2)" by simp
    with Function i show ?thesis by (cases res) simp_all
  qed simp_all
  have "rank (state (snd ?r)) \<le> rank (state (resume_waiters (snd ?r)))"
    by (rule resume_waiters_rank)
  with body have "rank (state ch) \<le> rank (state (resume_waiters (snd ?r)))" by (rule le_trans)
  with False ff sp show ?thesis by (simp add: receive_def Let_def)
qed

lemma call_state [simp]: "state (snd (call ch a as)) = state ch"
  by (auto simp: call_def Let_def nextSeqAddr_def split: prod.splits option.splits
           dest: send_state_eq)

lemma step_rank: "rank (state ch) \<le> rank (state (step ch op))"
proof (cases op)
  case Start
  then show ?thesis by (simp add: start_rank)
next
  case (Receive val)
  then show ?thesis by (simp add: receive_rank)
next
  case TimeoutExpiry
  then show ?thesis by (simp add: close_rank)
next
  case KeepAliveTick
  then show ?thesis by (simp add: sendKeepAlive_def)
next
  case (SetTimeout t k)
  then show ?thesis
    by (simp add: setTimeout_def resetKeepAlive_def sendKeepAlive_def Let_def)
qed (simp_all add: close_rank setAwaitFirstMsg_def)

lemma run_rank: "rank (state ch) \<le> rank (state (run ch ops))"
proof (induction ops arbitrary: ch)
  case Nil
  then show ?case by (simp add: run_def)
next
  case (Cons op ops)
  have "rank (state ch) \<le> rank (state (step ch op))" by (rule step_rank)
  also have "\<dots> \<le> rank (state (run (step ch op) ops))" by (rule Cons.IH)
  finally show ?case by (simp add: run_def)
qed

lemma close_twice: "close (close ch a) b = close ch a"
  by (simp add: close_def [of "close ch a"])

text \<open>
  Claim C4. Along every sequence of operations (start, close, stop, receive, timer
  events, call, send, register, unregister, the setters) the state only moves forward on \<open>INACTIVE\<close>, \<open>ACTIVE\<close>, \<open>CLOSED\<close>: a
  \<open>CLOSED\<close> channel stays \<open>CLOSED\<close> and a channel that has left \<open>INACTIVE\<close> never
  returns to it. A second \<open>close()\<close> leaves the whole channel as the first one left it:
  nothing is sent, no state changes, no registry is touched.
\<close>

theorem state_monotone:
  "rank (state ch) \<le> rank (state (run ch ops))
   \<and> (state ch = CLOSED \<longrightarrow> state (run ch ops) = CLOSED)
   \<and> (state ch \<noteq> INACTIVE \<longrightarrow> state (run ch ops) \<noteq> INACTIVE)
   \<and> close (close ch send1) send2 = close ch send1"
proof (intro conjI impI)
  show "rank (state ch) \<le> rank (state (run ch ops))" by (rule run_rank)
  show "state (run ch ops) = CLOSED" if "state ch = CLOSED"
    using run_rank [of ch ops] that by (cases "state (run ch ops)") simp_all
  show "state (run ch ops) \<noteq> INACTIVE" if "state ch \<noteq> INACTIVE"
    using run_rank [of ch ops] that by (cases "state ch") auto
  show "close (close ch send1) send2 = close ch send1" by (rule close_twice)
qed

text \<open>
  A channel with a timeout that awaits its first message: it becomes \<open>ACTIVE\<close> on the
  first message, \<open>CLOSED\<close> when the timer fires, and stays so.
\<close>

theorem state_monotone_witness:
  "state chanT = INACTIVE
   \<and> state (run chanT [Start]) = INACTIVE
   \<and> state (run chanT [Start, Receive keepalive]) = ACTIVE
   \<and> state (run chanT [Start, Receive keepalive, TimeoutExpiry]) = CLOSED
   \<and> state (run (run chanT [Start, Receive keepalive, TimeoutExpiry])
              [Start, Receive keepalive, Close True, TimeoutExpiry]) = CLOSED
   \<and> state (run (run chanT [Start, Receive keepalive])
              [Start, Receive keepalive, Call [''net''] [], Close False, Start]) \<noteq> INACTIVE"
proof -
  have a: "state chanT = INACTIVE" by (simp add: channel_defs fixture_defs)
  have b: "state (run chanT [Start]) = INACTIVE" by (simp add: channel_defs fixture_defs)
  have c: "state (run chanT [Start, Receive keepalive]) = ACTIVE"
    by (simp add: channel_defs fixture_defs)
  have d: "state (run chanT [Start, Receive keepalive, TimeoutExpiry]) = CLOSED"
    by (simp add: channel_defs fixture_defs)
  from c have c': "state (run chanT [Start, Receive keepalive]) \<noteq> INACTIVE" by simp
  from state_monotone [of "run chanT [Start, Receive keepalive, TimeoutExpiry]"
      "[Start, Receive keepalive, Close True, TimeoutExpiry]"] d
  have e: "state (run (run chanT [Start, Receive keepalive, TimeoutExpiry])
              [Start, Receive keepalive, Close True, TimeoutExpiry]) = CLOSED" by blast
  from state_monotone [of "run chanT [Start, Receive keepalive]"
      "[Start, Receive keepalive, Call [''net''] [], Close False, Start]"] c'
  have f: "state (run (run chanT [Start, Receive keepalive])
              [Start, Receive keepalive, Call [''net''] [], Close False, Start]) \<noteq> INACTIVE" by blast
  from a b c d e f show ?thesis by blast
qed

section \<open>Channel: receive\<close>

lemma resume_waiters_sent [simp]: "sent (resume_waiters ch) = sent ch"
  by (simp add: resume_waiters_def start_continue_def resetTimeout_def stateChange_def Let_def)

lemma resetTimeout_sent [simp]: "sent (resetTimeout ch) = sent ch"
  by (simp add: resetTimeout_def Let_def)

lemma resetTimeout_fields [simp]:
  "i_reg (resetTimeout ch) = i_reg ch" "reg (resetTimeout ch) = reg ch"
  "access_controller (resetTimeout ch) = access_controller ch"
  "default_policy (resetTimeout ch) = default_policy ch"
  "ac_state (resetTimeout ch) = ac_state ch"
  by (simp_all add: resetTimeout_def Let_def)

lemma find_func_resetTimeout [simp]: "find_func (resetTimeout ch) val = find_func ch val"
  by (simp add: find_func_def cong: prod.case_cong if_cong)

lemma security_policy_resetTimeout [simp]:
  "security_policy (resetTimeout ch) val = security_policy ch val"
  by (simp add: security_policy_def can_def cong: prod.case_cong if_cong option.case_cong)

lemma maybeReturn_error:
  "sent (snd (maybeReturn ch val (Plain Undefined) (new_error nm msg)))
     = sent ch @ error_reply val nm msg"
  by (simp add: maybeReturn_def error_reply_def send_def new_error_def redacted_def
           split: option.splits return_type.splits)

lemma can_is_chain:
  "access_controller ch = Some ac \<Longrightarrow>
     can ch addr os
       = ChainedAccessController_can
           [ac, ChainedAccessController_can (access_chain (i_reg ch)) (default_ap (i_reg ch))]
           (default_policy ch) addr os (ac_state ch)"
  by (simp add: can_def ChainedAccessController_can_def split: prod.splits)

lemma error_reply_differs:
  "return_addr val \<noteq> None \<Longrightarrow>
     error_reply val ''AccessDeniedError'' ''Access denied''
       \<noteq> error_reply val ''TypeError'' ''Function at address is undefined''"
  by (auto simp: error_reply_def)


lemma call_sends:
  "sent (snd (call chanA [''net'', ''x'', ''missing''] [])) = [(call_missing, [])]"
  by (simp add: channel_defs fixture_defs)

lemma reply_rejects:
  "settled (snd (receive (snd (call chanA [''net'', ''x'', ''missing''] []))
      \<lparr>to = [''_'', ''ret'', ''id0''], args = [SUndefined, undefined_function_error],
       return_addr = None, return_type = Some promise\<rparr>))
   = [((1, 0), Rejected (ForwardedError undefined_function_error))]"
  by (simp add: channel_defs fixture_defs)



text \<open>
  End to end, for the capture list: a handler registered at \<open>["net","x",undefined]\<close>
  is called with \<open>["hello"]\<close> for a message to \<open>["net","x","hello"]\<close>.
\<close>

lemma receive_passes_wildcards:
  "invoked (snd (receive chanH \<lparr>to = [''net'', ''x'', ''hello''], args = [], return_addr = None,
                               return_type = None\<rparr>))
     = [(7, [''hello''], [])]"
  by (simp add: channel_defs fixture_defs)

end
